theory Spec2Isabelle
  imports Main "HOL-Library.Sublist"
begin

section \<open>Python values used by the hook\<close>

text \<open>
  The hook (\<^verbatim>\<open>src/commit_msg/hook.py\<close>) works on Python strings, which are sequences of
  code points. Here a string is a \<^typ>\<open>string\<close>, one \<^typ>\<open>char\<close> per code point, so the
  model covers the messages whose code points are below 256; \<open>length\<close> is Python's
  \<^verbatim>\<open>len\<close> on them. The character classes below are Python's on that range.
\<close>

datatype pyerror = IndexError | TypeError | ValueError

definition newline :: char where
  "newline = CHR 0x0A"

definition py_isspace :: "char \<Rightarrow> bool" where
  \<comment> \<open>\<^verbatim>\<open>c.isspace()\<close>: tab, LF, VT, FF, CR, the separators 0x1C-0x1F, space, NEL, NBSP.\<close>
  "py_isspace c = (of_char c \<in> set [9::nat, 10, 11, 12, 13, 28, 29, 30, 31, 32, 133, 160])"

definition py_isdigit_char :: "char \<Rightarrow> bool" where
  \<comment> \<open>the code points below 256 that \<^verbatim>\<open>str.isdigit\<close> accepts: 0-9 and the superscripts
      two, three and one.\<close>
  "py_isdigit_char c =
     (let n = (of_char c :: nat) in (48 \<le> n \<and> n \<le> 57) \<or> n = 178 \<or> n = 179 \<or> n = 185)"

definition py_isdigit :: "string \<Rightarrow> bool" where
  \<comment> \<open>\<^verbatim>\<open>s.isdigit()\<close>: false on the empty string.\<close>
  "py_isdigit s = (s \<noteq> [] \<and> list_all py_isdigit_char s)"

definition py_strip :: "string \<Rightarrow> string" where
  \<comment> \<open>\<^verbatim>\<open>s.strip()\<close>\<close>
  "py_strip s = rev (dropWhile py_isspace (rev (dropWhile py_isspace s)))"

definition py_startswith :: "string \<Rightarrow> string \<Rightarrow> bool" where
  \<comment> \<open>\<^verbatim>\<open>s.startswith(p)\<close>\<close>
  "py_startswith s p = prefix p s"

fun py_in :: "string \<Rightarrow> string \<Rightarrow> bool" where
  \<comment> \<open>\<^verbatim>\<open>p in s\<close>: \<open>p\<close> occurs somewhere in \<open>s\<close>.\<close>
  "py_in p [] = (p = [])"
| "py_in p (c # cs) = (prefix p (c # cs) \<or> py_in p cs)"

function split_from :: "string \<Rightarrow> string \<Rightarrow> string \<Rightarrow> string list" where
  \<comment> \<open>the scan of \<^verbatim>\<open>s.split(sep)\<close>: \<open>cur\<close> is the piece collected so far; a match of
      \<open>sep\<close> closes the piece and the scan goes on behind the match.\<close>
  "split_from sep cur [] = [cur]"
| "split_from sep cur (c # cs) =
     (if sep \<noteq> [] \<and> prefix sep (c # cs)
      then cur # split_from sep [] (drop (length sep) (c # cs))
      else split_from sep (cur @ [c]) cs)"
  by pat_completeness auto
termination
  by (relation "measure (\<lambda>(sep, cur, s). length s)") auto

definition py_split :: "string \<Rightarrow> string \<Rightarrow> pyerror + string list" where
  \<comment> \<open>\<^verbatim>\<open>s.split(sep)\<close>; an empty separator raises ValueError.\<close>
  "py_split s sep = (if sep = [] then Inl ValueError else Inr (split_from sep [] s))"

function py_split_ws :: "string \<Rightarrow> string list" where
  \<comment> \<open>\<^verbatim>\<open>s.split()\<close>: the maximal runs of characters that are not whitespace.\<close>
  "py_split_ws s =
     (case dropWhile py_isspace s of
        [] \<Rightarrow> []
      | c # cs \<Rightarrow>
          takeWhile (\<lambda>x. \<not> py_isspace x) (c # cs)
            # py_split_ws (dropWhile (\<lambda>x. \<not> py_isspace x) cs))"
  by pat_completeness auto
termination
proof (relation "measure length", goal_cases)
  case 1
  show ?case by simp
next
  case (2 s c cs)
  have "length (dropWhile (\<lambda>x. \<not> py_isspace x) cs) \<le> length cs"
    by (rule length_dropWhile_le)
  moreover have "length (c # cs) \<le> length s"
    using length_dropWhile_le [of py_isspace s] 2 by simp
  ultimately show ?case by simp
qed

declare py_split_ws.simps [simp del]

definition py_index :: "'a list \<Rightarrow> int \<Rightarrow> pyerror + 'a" where
  \<comment> \<open>\<^verbatim>\<open>xs[i]\<close>: a negative index counts from the end; out of range raises IndexError.\<close>
  "py_index xs i =
     (let j = (if i < 0 then i + int (length xs) else i)
      in if j < 0 \<or> int (length xs) \<le> j then Inl IndexError else Inr (xs ! nat j))"

definition py_slice :: "'a list \<Rightarrow> int \<Rightarrow> int \<Rightarrow> 'a list" where
  \<comment> \<open>\<^verbatim>\<open>xs[a:b]\<close>: both bounds are clipped to the list, so a slice never raises.\<close>
  "py_slice xs a b =
     (let n = int (length xs);
          clip = (\<lambda>i. if i < 0 then max 0 (i + n) else min i n)
      in drop (nat (clip a)) (take (nat (clip b)) xs))"


section \<open>Console utilities\<close>

datatype level = OK | INFO | WARNING | ERROR

definition linter_text_padding :: "string \<Rightarrow> int \<Rightarrow> bool \<Rightarrow> string \<Rightarrow> string" where
  \<comment> \<open>\<^verbatim>\<open>symbol * k\<close> is empty for \<open>k \<le> 0\<close>.\<close>
  "linter_text_padding text width side symbol =
     (let pad = concat (replicate (nat (width - int (length text))) symbol)
      in if \<not> side then pad @ text else text @ pad)"

section \<open>Reading the message\<close>

text \<open>
  \<^verbatim>\<open>get_commit_message\<close> opens the file in text mode and calls \<^verbatim>\<open>readlines\<close>. The model
  takes the decoded text of the file in place of its path. The file is opened with the
  default \<^verbatim>\<open>newline=None\<close>, so the reader hands over every CR LF and every other CR as
  one line feed (\<open>universal_newlines\<close>); \<open>readlines\<close> cuts the translated text behind
  every line feed and keeps the line feed in the line.
\<close>

definition carriage_return :: char where
  "carriage_return = CHR 0x0D"

fun universal_newlines :: "string \<Rightarrow> string" where
  "universal_newlines [] = []"
| "universal_newlines [c] = (if c = carriage_return then [newline] else [c])"
| "universal_newlines (c # d # ds) =
     (if c = carriage_return
      then (if d = newline then newline # universal_newlines ds
            else newline # universal_newlines (d # ds))
      else c # universal_newlines (d # ds))"

fun readlines_from :: "string \<Rightarrow> string \<Rightarrow> string list" where
  "readlines_from cur [] = (if cur = [] then [] else [cur])"
| "readlines_from cur (c # cs) =
     (if c = newline then (cur @ [c]) # readlines_from [] cs
      else readlines_from (cur @ [c]) cs)"

definition readlines :: "string \<Rightarrow> string list" where
  "readlines file_text = readlines_from [] (universal_newlines file_text)"

definition get_commit_message :: "string \<Rightarrow> bool \<Rightarrow> string list" where
  "get_commit_message file_text keep_comments =
     (let commit_message = readlines file_text
      in if \<not> keep_comments
         then filter (\<lambda>line. \<not> py_startswith (py_strip line) ''#'') commit_message
         else commit_message)"

section \<open>Validators\<close>

text \<open>
  A validator returns the Python pair \<^verbatim>\<open>(flag, hint)\<close>, or raises. The hints the source
  builds are \<^verbatim>\<open>None\<close>, an integer, the list of commit types, the list of
  (handle, name) pairs and the pair \<^verbatim>\<open>(None, False)\<close>.
\<close>

datatype hint =
    HNone
  | HInt int
  | HTypes "string list"
  | HTrackers "(string \<times> string) list"
  | HNoneFalse

type_synonym outcome = "bool \<times> hint"

definition has_title_and_body :: "string list \<Rightarrow> pyerror + outcome" where
  "has_title_and_body commit_message = Inr (4 \<le> length commit_message, HNone)"

definition title_within_max_length :: "string list \<Rightarrow> pyerror + outcome" where
  "title_within_max_length commit_message =
     (let max_length = 50 in
      case py_index commit_message 0 of
        Inl e \<Rightarrow> Inl e
      | Inr title \<Rightarrow>
          if int (length title) > max_length then Inr (False, HInt max_length)
          else Inr (True, HNone))"

definition has_title_body_separator :: "string list \<Rightarrow> pyerror + outcome" where
  "has_title_body_separator commit_message =
     (case py_index commit_message 1 of
        Inl e \<Rightarrow> Inl e
      | Inr line \<Rightarrow> Inr (py_strip line = [], HNone))"

definition has_trailing_line :: "string list \<Rightarrow> pyerror + outcome" where
  "has_trailing_line commit_message =
     (case py_index commit_message (- 1) of
        Inl e \<Rightarrow> Inl e
      | Inr line \<Rightarrow> Inr (py_strip line = [], HNone))"

fun body_lines :: "int \<Rightarrow> string list \<Rightarrow> outcome" where
  \<comment> \<open>the loop over \<^verbatim>\<open>enumerate(body, start=1)\<close>, entered at \<open>line_number\<close>\<close>
  "body_lines line_number [] = (True, HNone)"
| "body_lines line_number (line # rest) =
     (if length line > 72 then (False, HInt line_number)
      else body_lines (line_number + 1) rest)"

definition body_within_max_length :: "string list \<Rightarrow> pyerror + outcome" where
  "body_within_max_length commit_message =
     (let body = py_slice commit_message 2 (- 1) in Inr (body_lines 1 body))"

definition valid_commit_types :: "string list" where
  "valid_commit_types =
     [''feat'', ''fix'', ''refactor'', ''style'', ''docs'', ''test'', ''chore'', ''revert'']"

definition title_starts_with_commit_type :: "string list \<Rightarrow> pyerror + outcome" where
  \<comment> \<open>the loop returns at the first commit type that matches: \<open>find\<close>\<close>
  "title_starts_with_commit_type commit_message =
     (case py_index commit_message 0 of
        Inl e \<Rightarrow> Inl e
      | Inr title \<Rightarrow>
          (case find (\<lambda>commit_type. py_startswith title (commit_type @ '':'')) valid_commit_types of
             Some commit_type \<Rightarrow> Inr (True, HNone)
           | None \<Rightarrow> Inr (False, HTypes valid_commit_types)))"

definition commit_type_require_issue_number :: "string list \<Rightarrow> pyerror + outcome" where
  "commit_type_require_issue_number commit_message =
     (case py_index commit_message 0 of
        Inl e \<Rightarrow> Inl e
      | Inr title \<Rightarrow>
          if py_startswith title ''feat:'' \<or> py_startswith title ''fix:''
          then Inr (True, HNone)
          else Inr (False, HNone))"

definition valid_issue_tracker_prefixes :: "(string \<times> string) list" where
  "valid_issue_tracker_prefixes =
     [(''jr:'', ''jira''), (''gh:'', ''github''), (''gl:'', ''gitlab''),
      (''bb:'', ''bitbucket''), (''lp:'', ''launchpad'')]"

definition issue_number_of :: "string \<Rightarrow> string \<Rightarrow> pyerror + string" where
  \<comment> \<open>\<^verbatim>\<open>title.split(issue_tracker)[1].split()[0]\<close>\<close>
  "issue_number_of title issue_tracker =
     (case py_split title issue_tracker of
        Inl e \<Rightarrow> Inl e
      | Inr pieces \<Rightarrow>
          (case py_index pieces 1 of
             Inl e \<Rightarrow> Inl e
           | Inr piece \<Rightarrow> py_index (py_split_ws piece) 0))"

definition title_has_issue_number :: "string list \<Rightarrow> pyerror + outcome" where
  \<comment> \<open>the loop returns (or raises) at the first handle that occurs in the title: \<open>find\<close>\<close>
  "title_has_issue_number commit_message =
     (case py_index commit_message 0 of
        Inl e \<Rightarrow> Inl e
      | Inr title \<Rightarrow>
          (case find (\<lambda>(issue_tracker, name). py_in issue_tracker title)
                  valid_issue_tracker_prefixes of
             Some (issue_tracker, name) \<Rightarrow>
               (case issue_number_of title issue_tracker of
                  Inl e \<Rightarrow> Inl e
                | Inr issue_number \<Rightarrow>
                    if py_isdigit issue_number then Inr (True, HNone)
                    else Inr (False, HNoneFalse))
           | None \<Rightarrow> Inr (False, HTrackers valid_issue_tracker_prefixes)))"

section \<open>The linter\<close>

text \<open>
  \<^verbatim>\<open>lint_commit_message\<close> calls the validators one after the other, prints after each
  call and returns 1 at the first flag that is false. A run of it is the list of its
  events, in order, and how it ended. An event is a call of a validator with what the
  call gave, or a \<^verbatim>\<open>print\<close> with the arguments of its \<^verbatim>\<open>linter_message\<close> calls (the
  colours and the line wrapping of \<^verbatim>\<open>linter_message\<close> are not modelled; a hint that an
  f-string formats is kept as a value).
\<close>

datatype rule =
    HasTitleAndBody
  | TitleWithinMaxLength
  | HasTitleBodySeparator
  | HasTrailingLine
  | BodyWithinMaxLength
  | TitleStartsWithCommitType
  | CommitTypeRequireIssueNumber
  | TitleHasIssueNumber

datatype item = Msg level string | MsgHint level string hint

datatype event = Call rule "pyerror + outcome" | Print "item list"

datatype ending = Returned int | Raised pyerror

type_synonym run = "event list \<times> ending"

definition check ::
  "rule \<Rightarrow> (string list \<Rightarrow> pyerror + outcome) \<Rightarrow> string list \<Rightarrow>
   (hint \<Rightarrow> item list) \<Rightarrow> item list \<Rightarrow> (event list \<Rightarrow> run) \<Rightarrow> event list \<Rightarrow> run" where
  \<comment> \<open>the block the source repeats for the first six validators:
      \<^verbatim>\<open>flag, hint = validator(commit_message)\<close>, then print and \<^verbatim>\<open>return 1\<close> when the
      flag is false, print and go on otherwise.\<close>
  "check r validator commit_message on_fail on_pass rest log =
     (case validator commit_message of
        Inl e \<Rightarrow> (log @ [Call r (Inl e)], Raised e)
      | Inr (flag, hint) \<Rightarrow>
          if \<not> flag
          then (log @ [Call r (Inr (flag, hint)), Print (on_fail hint)], Returned 1)
          else rest (log @ [Call r (Inr (flag, hint)), Print on_pass]))"

definition tracker_hints :: "hint \<Rightarrow> pyerror + string" where
  \<comment> \<open>the loop \<^verbatim>\<open>for handle, name in hint\<close>. Unpacking the first element of
      \<^verbatim>\<open>(None, False)\<close> raises TypeError. (\<^verbatim>\<open>title_has_issue_number\<close> gives no other
      hint with a false flag: \<^verbatim>\<open>None\<close> and an integer are not iterable, and a string
      unpacks into two names only when it has two characters.)\<close>
  "tracker_hints hint =
     (case hint of
        HTrackers pairs \<Rightarrow>
          Inr (concat (map (\<lambda>(handle, name).
                 linter_text_padding (''for '' @ name @ '' -> '' @ handle @ '':123'') 72 True '' '')
               pairs))
      | HTypes types \<Rightarrow>
          if list_all (\<lambda>t. length t = 2) types
          then Inr (concat (map (\<lambda>t.
                 linter_text_padding (''for '' @ [t ! 1] @ '' -> '' @ [t ! 0] @ '':123'') 72 True '' '')
               types))
          else Inl ValueError
      | _ \<Rightarrow> Inl TypeError)"

definition issue_tracker_report :: "hint \<Rightarrow> pyerror + item list" where
  \<comment> \<open>lines 333-360: the first message is chosen by the type of the hint (a list or a
      tuple), then the loop builds the tracker hints, then the second message is added.\<close>
  "issue_tracker_report hint =
     (let message_hint =
            (case hint of
               HNoneFalse \<Rightarrow> ''Issue Tracker is valid but no issue number provided.''
             | _ \<Rightarrow> ''Issue Tracker is not valid.'')
      in case tracker_hints hint of
           Inl e \<Rightarrow> Inl e
         | Inr hints \<Rightarrow>
             Inr [Msg ERROR message_hint,
                  Msg INFO
                    (linter_text_padding ''List of Valid Issue Trackers e.g:'' 72 True '' ''
                       @ hints)])"

definition require_issue_number :: "string list \<Rightarrow> event list \<Rightarrow> run" where
  \<comment> \<open>lines 313-372: the gate, and \<^verbatim>\<open>title_has_issue_number\<close> when the gate's flag is
      not \<^verbatim>\<open>False\<close>.\<close>
  "require_issue_number commit_message log =
     (case commit_type_require_issue_number commit_message of
        Inl e \<Rightarrow> (log @ [Call CommitTypeRequireIssueNumber (Inl e)], Raised e)
      | Inr (flag, hint) \<Rightarrow>
          let log1 = log @ [Call CommitTypeRequireIssueNumber (Inr (flag, hint))] in
          if \<not> flag
          then (log1 @ [Print [Msg INFO ''Commit type does not require an issue number.'']],
                Returned 0)
          else
            let log2 = log1 @
                  [Print [Msg INFO ''Commit type requires an issue number checking.....'']]
            in
            (case title_has_issue_number commit_message of
               Inl e \<Rightarrow> (log2 @ [Call TitleHasIssueNumber (Inl e)], Raised e)
             | Inr (flag, hint) \<Rightarrow>
                 let log3 = log2 @ [Call TitleHasIssueNumber (Inr (flag, hint))] in
                 if \<not> flag
                 then
                   (case issue_tracker_report hint of
                      Inl e \<Rightarrow> (log3, Raised e)
                    | Inr items \<Rightarrow> (log3 @ [Print items], Returned 1))
                 else
                   (log3 @ [Print [Msg OK ''Commit Message has a valid issue number.'']],
                    Returned 0)))"

definition lint_rules :: "string list \<Rightarrow> run" where
  \<comment> \<open>lines 208-372 of \<^verbatim>\<open>lint_commit_message\<close>, on the message read at line 206\<close>
  "lint_rules commit_message =
     check HasTitleAndBody has_title_and_body commit_message
       (\<lambda>hint. [Msg ERROR ''Title and Body are required''])
       [Msg OK ''Commit Message has a title and body.'']
    (check TitleWithinMaxLength title_within_max_length commit_message
       (\<lambda>hint. [Msg ERROR ''Title is too long:'', MsgHint INFO ''Max Length: '' hint])
       [Msg OK ''Title is within the maximum length.'']
    (check HasTitleBodySeparator has_title_body_separator commit_message
       (\<lambda>hint. [Msg ERROR ''A blank line is required between the title and body''])
       [Msg OK ''Commit Message has a blank line between title and body.'']
    (check HasTrailingLine has_trailing_line commit_message
       (\<lambda>hint. [Msg ERROR ''A blank line is required at the end of the commit message''])
       [Msg OK ''Commit message has a trailing line.'']
    (check BodyWithinMaxLength body_within_max_length commit_message
       (\<lambda>hint. [Msg ERROR ''Commit Body lines are too long:'', MsgHint INFO ''Line '' hint])
       [Msg OK ''Commit Body lines are within the maximum length.'']
    (check TitleStartsWithCommitType title_starts_with_commit_type commit_message
       (\<lambda>hint. [Msg ERROR ''Title must start with a valid commit type'',
                 MsgHint INFO ''Valid Commit Types: '' hint])
       [Msg OK ''Title starts with a valid commit type.'']
    (require_issue_number commit_message)))))) []"

definition lint_commit_message :: "string \<Rightarrow> run" where
  \<comment> \<open>the argument is the text of the file that \<^verbatim>\<open>sys.argv[1]\<close> names\<close>
  "lint_commit_message file_text = lint_rules (get_commit_message file_text False)"

definition exit_status :: "ending \<Rightarrow> int" where
  \<comment> \<open>\<^verbatim>\<open>sys.exit(main())\<close>: the value returned is the status of the process; an exception
      that nothing catches ends the interpreter with status 1.\<close>
  "exit_status e = (case e of Returned n \<Rightarrow> n | Raised err \<Rightarrow> 1)"

section \<open>Reading a run\<close>

fun calls :: "event list \<Rightarrow> (rule \<times> (pyerror + outcome)) list" where
  "calls [] = []"
| "calls (Call r res # es) = (r, res) # calls es"
| "calls (Print items # es) = calls es"

definition rule_order :: "rule list" where
  "rule_order =
     [HasTitleAndBody, TitleWithinMaxLength, HasTitleBodySeparator, HasTrailingLine,
      BodyWithinMaxLength, TitleStartsWithCommitType, CommitTypeRequireIssueNumber,
      TitleHasIssueNumber]"

fun passed :: "pyerror + outcome \<Rightarrow> bool" where
  "passed (Inr (flag, hint)) = flag"
| "passed (Inl e) = False"

fun failed :: "rule \<times> (pyerror + outcome) \<Rightarrow> bool" where
  \<comment> \<open>a call that fails the message: any validator but the gate, whose flag only says
      whether the issue number is looked for\<close>
  "failed (r, res) = (r \<noteq> CommitTypeRequireIssueNumber \<and> \<not> passed res)"

text \<open>
  Two predicates for the proofs about runs. \<open>passed_so_far rs log\<close>: the calls logged so
  far are those of the rules \<open>rs\<close>, and each gave a true flag. \<open>run_ok\<close>: a run called
  the rules in their order, every call but the last gave a true flag, and the run ended
  with status 1 when the last call failed the message and returned 0 otherwise, having
  called the first seven rules at least.
\<close>

definition passed_so_far :: "rule list \<Rightarrow> event list \<Rightarrow> bool" where
  "passed_so_far rs log =
     (map fst (calls log) = rs \<and> list_all (\<lambda>c. passed (snd c)) (calls log))"

definition run_ok :: "run \<Rightarrow> bool" where
  "run_ok rn =
     (let cs = calls (fst rn) in
      cs \<noteq> [] \<and> prefix (map fst cs) rule_order \<and>
      list_all (\<lambda>c. passed (snd c)) (butlast cs) \<and>
      (if failed (last cs) then exit_status (snd rn) = 1
       else snd rn = Returned 0 \<and> 7 \<le> length cs))"


section \<open>Indexing and slicing\<close>

lemma py_index_first: "py_index (x # xs) 0 = Inr x"
  by (simp add: py_index_def)

lemma py_index_nil: "py_index [] i = Inl IndexError"
  by (simp add: py_index_def Let_def)

lemma py_index_zero: "xs \<noteq> [] \<Longrightarrow> py_index xs 0 = Inr (xs ! 0)"
  by (simp add: py_index_def)

lemma py_index_one: "2 \<le> length xs \<Longrightarrow> py_index xs 1 = Inr (xs ! 1)"
  by (simp add: py_index_def)

lemma py_index_last: "xs \<noteq> [] \<Longrightarrow> py_index xs (- 1) = Inr (last xs)"
proof -
  assume ne: "xs \<noteq> []"
  then have "nat (int (length xs) - 1) = length xs - 1"
    by (simp add: nat_diff_distrib')
  with ne show ?thesis
    by (simp add: py_index_def Let_def last_conv_nth)
qed

lemma py_slice_body: "py_slice xs 2 (- 1) = butlast (drop 2 xs)"
proof -
  have "nat (max 0 (int (length xs) - 1)) = length xs - 1"
    by (cases xs) (simp_all add: nat_diff_distrib')
  then show ?thesis
    by (simp add: py_slice_def Let_def butlast_conv_take drop_take min_def)
qed

section \<open>Runs of the linter\<close>

lemma check_fail:
  "validator m = Inr (False, h) \<Longrightarrow>
   check r validator m on_fail on_pass rest log =
     (log @ [Call r (Inr (False, h)), Print (on_fail h)], Returned 1)"
  by (simp add: check_def)

lemma check_pass:
  "validator m = Inr (True, h) \<Longrightarrow>
   check r validator m on_fail on_pass rest log =
     rest (log @ [Call r (Inr (True, h)), Print on_pass])"
  by (simp add: check_def)

lemma calls_append: "calls (xs @ ys) = calls xs @ calls ys"
  by (induction xs rule: calls.induct) simp_all

lemma check_run_ok:
  assumes v: "validator m = Inr out"
    and sofar: "passed_so_far rs log"
    and r: "prefix (rs @ [r]) rule_order" "r \<noteq> CommitTypeRequireIssueNumber"
    and rest: "\<And>log'. passed_so_far (rs @ [r]) log' \<Longrightarrow> run_ok (rest log')"
  shows "run_ok (check r validator m on_fail on_pass rest log)"
proof (cases out)
  case (Pair flag h)
  show ?thesis
  proof (cases flag)
    case True
    have "passed_so_far (rs @ [r]) (log @ [Call r (Inr (True, h)), Print on_pass])"
      using sofar by (simp add: passed_so_far_def calls_append)
    then show ?thesis
      using v Pair True rest by (simp add: check_pass)
  next
    case False
    then show ?thesis
      using v Pair sofar r
      by (simp add: check_fail run_ok_def passed_so_far_def calls_append exit_status_def)
  qed
qed

lemma gate_returns:
  "m \<noteq> [] \<Longrightarrow>
   commit_type_require_issue_number m =
     Inr (py_startswith (m ! 0) ''feat:'' \<or> py_startswith (m ! 0) ''fix:'', HNone)"
  by (simp add: commit_type_require_issue_number_def py_index_zero)

lemma require_issue_number_run_ok:
  assumes sofar: "passed_so_far (take 6 rule_order) log" and ne: "m \<noteq> []"
  shows "run_ok (require_issue_number m log)"
proof -
  define b where "b = (py_startswith (m ! 0) ''feat:'' \<or> py_startswith (m ! 0) ''fix:'')"
  have gate: "commit_type_require_issue_number m = Inr (b, HNone)"
    using ne by (simp add: gate_returns b_def)
  have six: "map fst (calls log) = take 6 rule_order"
    and all: "list_all (\<lambda>c. passed (snd c)) (calls log)"
    using sofar by (simp_all add: passed_so_far_def)
  have t6: "take 6 rule_order = [HasTitleAndBody, TitleWithinMaxLength, HasTitleBodySeparator,
      HasTrailingLine, BodyWithinMaxLength, TitleStartsWithCommitType]"
    by (simp add: rule_order_def)
  have len: "length (calls log) = 6"
    using arg_cong [OF six, of length] by (simp add: rule_order_def)
  show ?thesis
  proof (cases b)
    case False
    then show ?thesis
      using gate six all t6 len
      by (simp add: require_issue_number_def run_ok_def calls_append rule_order_def butlast_append)
  next
    case True
    show ?thesis
    proof (cases "title_has_issue_number m")
      case (Inl e)
      then show ?thesis
        using gate True six all t6 len
        by (simp add: require_issue_number_def run_ok_def calls_append rule_order_def
            exit_status_def butlast_append)
    next
      case (Inr out)
      obtain flag h where out: "out = (flag, h)" by (cases out)
      show ?thesis
      proof (cases flag)
        case True
        then show ?thesis
          using gate \<open>b\<close> Inr out six all t6 len
          by (simp add: require_issue_number_def run_ok_def calls_append rule_order_def butlast_append)
      next
        case False
        then show ?thesis
          using gate \<open>b\<close> Inr out six all t6 len
          by (cases "issue_tracker_report h")
            (simp_all add: require_issue_number_def run_ok_def calls_append rule_order_def
              exit_status_def butlast_append)
      qed
    qed
  qed
qed

lemma rule1_returns: "has_title_and_body m = Inr (4 \<le> length m, HNone)"
  by (simp add: has_title_and_body_def)

lemma rule2_returns:
  "m \<noteq> [] \<Longrightarrow>
   title_within_max_length m =
     Inr (length (m ! 0) \<le> 50, if length (m ! 0) \<le> 50 then HNone else HInt 50)"
  by (simp add: title_within_max_length_def py_index_zero)

lemma rule3_returns:
  "2 \<le> length m \<Longrightarrow> has_title_body_separator m = Inr (py_strip (m ! 1) = [], HNone)"
  by (simp add: has_title_body_separator_def py_index_one)

lemma rule4_returns:
  "m \<noteq> [] \<Longrightarrow> has_trailing_line m = Inr (py_strip (last m) = [], HNone)"
  by (simp add: has_trailing_line_def py_index_last)

lemma rule5_returns:
  "body_within_max_length m = Inr (body_lines 1 (butlast (drop 2 m)))"
  by (simp add: body_within_max_length_def py_slice_body)

lemma rule6_returns:
  "m \<noteq> [] \<Longrightarrow> \<exists>out. title_starts_with_commit_type m = Inr out"
  by (auto simp: title_starts_with_commit_type_def py_index_zero split: option.split)

lemma lint_rules_run_ok: "run_ok (lint_rules m)"
proof (cases "4 \<le> length m")
  case False
  then show ?thesis
    by (simp add: lint_rules_def check_fail rule1_returns run_ok_def rule_order_def
        exit_status_def)
next
  case True
  then have ne: "m \<noteq> []" and two: "2 \<le> length m"
    by auto
  obtain out6 where r6: "title_starts_with_commit_type m = Inr out6"
    using rule6_returns [OF ne] by blast
  show ?thesis
    unfolding lint_rules_def
    apply (rule check_run_ok [where rs = "[]"])
        apply (rule rule1_returns)
       apply (simp_all add: passed_so_far_def rule_order_def)[3]
    apply (rule check_run_ok)
        apply (rule rule2_returns [OF ne])
       apply assumption
      apply (simp_all add: rule_order_def)[2]
    apply (rule check_run_ok)
        apply (rule rule3_returns [OF two])
       apply assumption
      apply (simp_all add: rule_order_def)[2]
    apply (rule check_run_ok)
        apply (rule rule4_returns [OF ne])
       apply assumption
      apply (simp_all add: rule_order_def)[2]
    apply (rule check_run_ok)
        apply (rule rule5_returns)
       apply assumption
      apply (simp_all add: rule_order_def)[2]
    apply (rule check_run_ok)
        apply (rule r6)
       apply assumption
      apply (simp_all add: rule_order_def)[2]
    apply (rule require_issue_number_run_ok [OF _ ne])
    apply (simp add: rule_order_def)
    done
qed

lemma failed_iff: "failed c = (fst c \<noteq> CommitTypeRequireIssueNumber \<and> \<not> passed (snd c))"
  by (cases c) simp

lemma run_ok_facts:
  assumes "run_ok (log, e)"
  shows "calls log \<noteq> []"
    and "prefix (map fst (calls log)) rule_order"
    and "list_all (\<lambda>c. passed (snd c)) (butlast (calls log))"
    and "failed (last (calls log)) \<Longrightarrow> exit_status e = 1"
    and "\<not> failed (last (calls log)) \<Longrightarrow> e = Returned 0 \<and> 7 \<le> length (calls log)"
    and "list_ex failed (calls log) = failed (last (calls log))"
proof -
  let ?cs = "calls log"
  show ne: "?cs \<noteq> []" and "prefix (map fst ?cs) rule_order"
    and bl: "list_all (\<lambda>c. passed (snd c)) (butlast ?cs)"
    using assms by (simp_all add: run_ok_def Let_def)
  show "failed (last ?cs) \<Longrightarrow> exit_status e = 1"
    using assms by (simp add: run_ok_def Let_def)
  show "\<not> failed (last ?cs) \<Longrightarrow> e = Returned 0 \<and> 7 \<le> length ?cs"
    using assms by (simp add: run_ok_def Let_def)
  have "\<not> list_ex failed (butlast ?cs)"
    using bl by (auto simp: list_all_iff list_ex_iff failed_iff)
  moreover have "list_ex failed ?cs = (list_ex failed (butlast ?cs) \<or> failed (last ?cs))"
    using ne by (subst append_butlast_last_id [OF ne, symmetric]) (simp del: append_butlast_last_id)
  ultimately show "list_ex failed ?cs = failed (last ?cs)"
    by simp
qed

lemma long_title_run:
  assumes "4 \<le> length m" and "50 < length (m ! 0)"
  shows "lint_rules m =
        ([Call HasTitleAndBody (Inr (True, HNone)),
          Print [Msg OK ''Commit Message has a title and body.''],
          Call TitleWithinMaxLength (Inr (False, HInt 50)),
          Print [Msg ERROR ''Title is too long:'', MsgHint INFO ''Max Length: '' (HInt 50)]],
         Returned 1)"
proof -
  have ne: "m \<noteq> []" using assms by auto
  show ?thesis
    using assms by (simp add: lint_rules_def rule1_returns rule2_returns [OF ne] check_def)
qed

section \<open>Strings: occurrences, split and tokens\<close>

lemma py_in_sublist: "py_in p s = sublist p s"
  by (induction s) (simp_all add: sublist_Cons_right)

lemma digit_not_space: "py_isdigit_char c \<Longrightarrow> \<not> py_isspace c"
  by (auto simp: py_isdigit_char_def py_isspace_def Let_def)

lemma split_from_nonstart:
  assumes "sep \<noteq> []" and "\<forall>c\<in>set u. c \<noteq> hd sep"
  shows "split_from sep cur (u @ v) = split_from sep (cur @ u) v"
  using assms(2)
proof (induction u arbitrary: cur)
  case Nil
  show ?case by simp
next
  case (Cons c u)
  have "\<not> prefix sep (c # u @ v)"
    using assms(1) Cons.prems by (cases sep) auto
  then show ?case
    using Cons by simp
qed

lemma split_from_match:
  "sep \<noteq> [] \<Longrightarrow> split_from sep cur (sep @ r) = cur # split_from sep [] r"
  by (cases sep) simp_all

lemma split_from_first:
  assumes "sep \<noteq> []" and "\<not> sublist sep (a @ butlast sep)"
  shows "split_from sep cur (a @ sep @ r) = (cur @ a) # split_from sep [] r"
  using assms(2)
proof (induction a arbitrary: cur)
  case Nil
  then show ?case
    using assms(1) by (simp add: split_from_match)
next
  case (Cons x a)
  have nosub: "\<not> sublist sep (a @ butlast sep)"
    and nopre: "\<not> prefix sep (x # a @ butlast sep)"
    using Cons.prems by (simp_all add: sublist_Cons_right)
  have "\<not> prefix sep (x # a @ sep @ r)"
  proof
    assume p: "prefix sep (x # a @ sep @ r)"
    have q: "prefix (x # a @ butlast sep) (x # a @ sep @ r)"
      by (simp add: prefixeq_butlast)
    have "length sep \<le> length (x # a @ butlast sep)"
      by simp
    from prefix_length_prefix [OF p q this] nopre show False
      by simp
  qed
  then show ?case
    using Cons.IH [OF nosub] by simp
qed

lemma first_occurrence:
  assumes "sep \<noteq> []" and "sublist sep s"
  shows "\<exists>a r. s = a @ sep @ r \<and> \<not> sublist sep (a @ butlast sep)"
  using assms(2)
proof (induction s)
  case Nil
  then show ?case
    using assms(1) by simp
next
  case (Cons c s)
  show ?case
  proof (cases "prefix sep (c # s)")
    case True
    then obtain r where r: "c # s = sep @ r"
      by (auto simp: prefix_def)
    have "\<not> sublist sep (butlast sep)"
      using assms(1) sublist_length_le [of sep "butlast sep"] by (cases sep) auto
    with r show ?thesis
      by (intro exI [of _ "[]"] exI [of _ r]) simp
  next
    case False
    then have "sublist sep s"
      using Cons.prems by (simp add: sublist_Cons_right)
    then obtain a r where s: "s = a @ sep @ r" and n: "\<not> sublist sep (a @ butlast sep)"
      using Cons.IH by blast
    have "\<not> prefix sep (c # a @ butlast sep)"
    proof
      assume "prefix sep (c # a @ butlast sep)"
      moreover have "prefix (c # a @ butlast sep) (c # s)"
        using s by (simp add: prefixeq_butlast)
      ultimately have "prefix sep (c # s)"
        by (rule prefix_order.trans)
      with False show False ..
    qed
    with n have "\<not> sublist sep ((c # a) @ butlast sep)"
      by (simp add: sublist_Cons_right)
    with s show ?thesis
      by (intro exI [of _ "c # a"] exI [of _ r]) simp
  qed
qed

lemma split_from_shape: "\<exists>y ys. split_from sep cur s = (cur @ y) # ys"
proof (induction sep cur s rule: split_from.induct)
  case (1 sep cur)
  show ?case by simp
next
  case (2 sep cur c cs)
  show ?case
  proof (cases "sep \<noteq> [] \<and> prefix sep (c # cs)")
    case True
    then show ?thesis by simp
  next
    case False
    with 2(2) obtain y ys where "split_from sep (cur @ [c]) cs = ((cur @ [c]) @ y) # ys"
      by blast
    with False show ?thesis
      by (intro exI [of _ "c # y"] exI [of _ ys]) auto
  qed
qed

lemma split_from_head:
  "sep \<noteq> [] \<Longrightarrow>
   \<exists>seg r2 ys. split_from sep cur s = (cur @ seg) # ys \<and> s = seg @ r2 \<and>
     (r2 = [] \<or> prefix sep r2)"
proof (induction sep cur s rule: split_from.induct)
  case (1 sep cur)
  show ?case by simp
next
  case (2 sep cur c cs)
  show ?case
  proof (cases "prefix sep (c # cs)")
    case True
    with 2(3) show ?thesis
      by (intro exI [of _ "[]"] exI [of _ "c # cs"]
          exI [of _ "split_from sep [] (drop (length sep) (c # cs))"]) simp
  next
    case False
    with 2(2,3) obtain seg r2 ys where
      "split_from sep (cur @ [c]) cs = ((cur @ [c]) @ seg) # ys" "cs = seg @ r2"
      "r2 = [] \<or> prefix sep r2"
      by blast
    with False show ?thesis
      by (intro exI [of _ "c # seg"] exI [of _ r2] exI [of _ ys]) auto
  qed
qed

lemma first_token:
  "py_index (py_split_ws seg) 0 =
     (if dropWhile py_isspace seg = [] then Inl IndexError
      else Inr (takeWhile (\<lambda>x. \<not> py_isspace x) (dropWhile py_isspace seg)))"
proof (cases "dropWhile py_isspace seg")
  case Nil
  have "py_split_ws seg = []"
    by (subst py_split_ws.simps) (simp only: Nil list.case)
  then show ?thesis
    using Nil by (simp add: py_index_nil del: dropWhile_eq_Nil_conv)
next
  case (Cons c cs)
  have "py_split_ws seg =
      takeWhile (\<lambda>x. \<not> py_isspace x) (c # cs)
        # py_split_ws (dropWhile (\<lambda>x. \<not> py_isspace x) cs)"
    by (subst py_split_ws.simps) (simp only: Cons list.case)
  then show ?thesis
    using Cons by (simp add: py_index_first del: dropWhile_eq_Nil_conv)
qed

lemma issue_number_of_first:
  assumes "p \<noteq> []" and "\<not> sublist p (a @ butlast p)"
  shows "issue_number_of (a @ p @ r) p = py_index (py_split_ws (hd (split_from p [] r))) 0"
proof -
  obtain y ys where y: "split_from p [] r = y # ys"
    using split_from_shape [of p "[]" r] by auto
  have "py_split (a @ p @ r) p = Inr (a # y # ys)"
    using assms y split_from_first [of p a "[]" r] by (simp add: py_split_def)
  moreover have "py_index (a # y # ys) 1 = Inr y"
    by (simp add: py_index_def)
  ultimately show ?thesis
    using y by (simp add: issue_number_of_def)
qed

lemma tracker_handle:
  "(p, n) \<in> set valid_issue_tracker_prefixes \<Longrightarrow>
   p \<noteq> [] \<and> \<not> py_isspace (hd p) \<and> \<not> py_isdigit_char (hd p)"
  by (auto simp: valid_issue_tracker_prefixes_def py_isspace_def py_isdigit_char_def)

lemma first_tracker_iff:
  "find (\<lambda>(t, n). py_in t title) valid_issue_tracker_prefixes = Some x \<longleftrightarrow>
   (\<exists>i<length valid_issue_tracker_prefixes. x = valid_issue_tracker_prefixes ! i \<and>
      sublist (fst (valid_issue_tracker_prefixes ! i)) title \<and>
      (\<forall>j<i. \<not> sublist (fst (valid_issue_tracker_prefixes ! j)) title))"
  by (auto simp: find_Some_iff case_prod_beta py_in_sublist)


lemma title_has_issue_number_Cons:
  "title_has_issue_number (title # rest) =
     (case find (\<lambda>(t, n). py_in t title) valid_issue_tracker_prefixes of
        Some (t, n) \<Rightarrow>
          (case issue_number_of title t of
             Inl e \<Rightarrow> Inl e
           | Inr num \<Rightarrow>
               if py_isdigit num then Inr (True, HNone) else Inr (False, HNoneFalse))
      | None \<Rightarrow> Inr (False, HTrackers valid_issue_tracker_prefixes))"
  by (simp add: title_has_issue_number_def py_index_first)

text \<open>the segment behind the handle, when it starts with whitespace, digits and then a stop\<close>
lemma number_token:
  assumes p: "p \<noteq> []" "\<not> py_isspace (hd p)" "\<not> py_isdigit_char (hd p)"
    and ws: "list_all py_isspace ws"
    and tok: "tok \<noteq> []" "list_all py_isdigit_char tok"
    and stop: "rest' = [] \<or> py_isspace (hd rest') \<or> prefix p rest'"
  shows "py_index (py_split_ws (hd (split_from p [] (ws @ tok @ rest')))) 0 = Inr tok"
proof -
  have nostart: "\<forall>c\<in>set (ws @ tok). c \<noteq> hd p"
    using p ws tok by (auto simp: list_all_iff)
  have step: "split_from p [] (ws @ tok @ rest') = split_from p (ws @ tok) rest'"
    using split_from_nonstart [OF p(1) nostart, of "[]" rest'] by simp
  have "\<exists>x. hd (split_from p [] (ws @ tok @ rest')) = ws @ tok @ x \<and>
      (x = [] \<or> py_isspace (hd x))"
  proof (cases "rest' = []")
    case True
    then show ?thesis using step by simp
  next
    case False
    then obtain c cs where rest': "rest' = c # cs"
      by (cases rest') auto
    show ?thesis
    proof (cases "prefix p rest'")
      case True
      then show ?thesis
        using step p(1) rest' by simp
    next
      case False
      then have sp: "py_isspace c"
        using stop rest' by simp
      obtain y ys where "split_from p ((ws @ tok) @ [c]) cs = (((ws @ tok) @ [c]) @ y) # ys"
        using split_from_shape by blast
      then have "hd (split_from p [] (ws @ tok @ rest')) = ws @ tok @ (c # y)"
        using step False rest' by simp
      with sp show ?thesis by auto
    qed
  qed
  then obtain x where seg: "hd (split_from p [] (ws @ tok @ rest')) = ws @ tok @ x"
    and x: "x = [] \<or> py_isspace (hd x)"
    by blast
  have nsp: "\<And>c. c \<in> set tok \<Longrightarrow> \<not> py_isspace c"
    using tok(2) digit_not_space by (auto simp: list_all_iff)
  have "dropWhile py_isspace (tok @ x) = tok @ x"
    using tok(1) nsp by (cases tok) auto
  then have d: "dropWhile py_isspace (ws @ tok @ x) = tok @ x"
    using ws by (simp add: list_all_iff)
  have "takeWhile (\<lambda>c. \<not> py_isspace c) x = []"
    using x by (cases x) auto
  then have tk: "takeWhile (\<lambda>c. \<not> py_isspace c) (tok @ x) = tok"
    using nsp by simp
  have "py_index (py_split_ws (ws @ tok @ x)) 0 = Inr tok"
    unfolding first_token d tk using tok(1) by simp
  then show ?thesis
    using seg by simp
qed

lemma issue_number_of_digits:
  assumes i: "i < length valid_issue_tracker_prefixes"
    and p: "p = fst (valid_issue_tracker_prefixes ! i)"
    and first: "title = a @ p @ r" "\<not> sublist p (a @ butlast p)"
  shows "(\<exists>tok. issue_number_of title p = Inr tok \<and> py_isdigit tok) \<longleftrightarrow>
     (\<exists>ws tok rest'. r = ws @ tok @ rest' \<and> list_all py_isspace ws \<and> tok \<noteq> [] \<and>
        list_all py_isdigit_char tok \<and>
        (rest' = [] \<or> py_isspace (hd rest') \<or> prefix p rest'))"
proof
  have "(p, snd (valid_issue_tracker_prefixes ! i)) \<in> set valid_issue_tracker_prefixes"
    using i p by (metis nth_mem prod.collapse)
  then have hp: "p \<noteq> []" "\<not> py_isspace (hd p)" "\<not> py_isdigit_char (hd p)"
    using tracker_handle by blast+
  have num: "issue_number_of title p = py_index (py_split_ws (hd (split_from p [] r))) 0"
    using issue_number_of_first [OF hp(1) first(2)] first(1) by simp
  {
    assume "\<exists>tok. issue_number_of title p = Inr tok \<and> py_isdigit tok"
    then obtain tok where tok: "issue_number_of title p = Inr tok" "py_isdigit tok"
      by blast
    obtain seg r2 ys where seg: "split_from p [] r = seg # ys" "r = seg @ r2"
      "r2 = [] \<or> prefix p r2"
      using split_from_head [OF hp(1), of "[]" r] by auto
    define ws where "ws = takeWhile py_isspace seg"
    define x where "x = dropWhile (\<lambda>c. \<not> py_isspace c) (dropWhile py_isspace seg)"
    have t: "dropWhile py_isspace seg \<noteq> []"
      "tok = takeWhile (\<lambda>c. \<not> py_isspace c) (dropWhile py_isspace seg)"
      using tok(1) num seg(1) by (auto simp: first_token split: if_splits)
    have "seg = ws @ dropWhile py_isspace seg"
      by (simp add: ws_def)
    also have "dropWhile py_isspace seg = tok @ x"
      by (simp add: t(2) x_def)
    finally have r: "r = ws @ tok @ (x @ r2)"
      using seg(2) by simp
    have "x = [] \<or> py_isspace (hd x)"
      using hd_dropWhile [of "\<lambda>c. \<not> py_isspace c" "dropWhile py_isspace seg"]
      by (auto simp: x_def)
    then have stop: "x @ r2 = [] \<or> py_isspace (hd (x @ r2)) \<or> prefix p (x @ r2)"
      using seg(3) by (cases x) auto
    have "list_all py_isspace ws"
      by (auto simp: ws_def list_all_iff dest: set_takeWhileD)
    with r stop tok(2)
    show "\<exists>ws tok rest'. r = ws @ tok @ rest' \<and> list_all py_isspace ws \<and> tok \<noteq> [] \<and>
        list_all py_isdigit_char tok \<and>
        (rest' = [] \<or> py_isspace (hd rest') \<or> prefix p rest')"
      unfolding py_isdigit_def by blast
  }
  {
    assume "\<exists>ws tok rest'. r = ws @ tok @ rest' \<and> list_all py_isspace ws \<and> tok \<noteq> [] \<and>
        list_all py_isdigit_char tok \<and>
        (rest' = [] \<or> py_isspace (hd rest') \<or> prefix p rest')"
    then obtain ws tok rest' where r: "r = ws @ tok @ rest'" and ws: "list_all py_isspace ws"
      and tok: "tok \<noteq> []" "list_all py_isdigit_char tok"
      and stop: "rest' = [] \<or> py_isspace (hd rest') \<or> prefix p rest'"
      by blast
    have "issue_number_of title p = Inr tok"
      using num number_token [OF hp ws tok stop] r by simp
    with tok show "\<exists>tok. issue_number_of title p = Inr tok \<and> py_isdigit tok"
      by (auto simp: py_isdigit_def)
  }
qed





lemma body_lines_eq:
  "body_lines n body =
     (if \<forall>l\<in>set body. length l \<le> 72 then (True, HNone)
      else (False, HInt (n + int (length (takeWhile (\<lambda>l. length l \<le> 72) body)))))"
  by (induction body arbitrary: n) auto

lemma readlines_from_concat: "concat (readlines_from cur s) = cur @ s"
  by (induction s arbitrary: cur) auto

lemma readlines_from_lines:
  "\<forall>l\<in>set (readlines_from cur s).
     l \<noteq> [] \<and> (last l = newline \<or> l = last (readlines_from cur s))"
proof (induction s arbitrary: cur)
  case Nil
  show ?case by simp
next
  case (Cons c s)
  show ?case
  proof (cases "c = newline")
    case True
    show ?thesis
    proof
      fix l
      assume l: "l \<in> set (readlines_from cur (c # s))"
      show "l \<noteq> [] \<and> (last l = newline \<or> l = last (readlines_from cur (c # s)))"
      proof (cases "l = cur @ [c]")
        case True
        then show ?thesis
          using \<open>c = newline\<close> by simp
      next
        case False
        then have mem: "l \<in> set (readlines_from [] s)"
          using l \<open>c = newline\<close> by simp
        then have "readlines_from [] s \<noteq> []"
          by auto
        then have "last (readlines_from cur (c # s)) = last (readlines_from [] s)"
          using \<open>c = newline\<close> by simp
        then show ?thesis
          using Cons.IH [of "[]"] mem by simp
      qed
    qed
  next
    case False
    then show ?thesis
      using Cons.IH [of "cur @ [c]"] by simp
  qed
qed

lemma readlines_from_ends:
  "cur @ s = [] \<or> last (cur @ s) = newline \<Longrightarrow>
   \<forall>l\<in>set (readlines_from cur s). l \<noteq> [] \<and> last l = newline"
proof (induction s arbitrary: cur)
  case Nil
  then show ?case by auto
next
  case (Cons c s)
  show ?case
  proof (cases "c = newline")
    case True
    have "[] @ s = [] \<or> last ([] @ s) = newline"
      using Cons.prems by (cases "s = []") auto
    from Cons.IH [OF this] True show ?thesis by simp
  next
    case False
    have "(cur @ [c]) @ s = [] \<or> last ((cur @ [c]) @ s) = newline"
      using Cons.prems by simp
    from Cons.IH [OF this] False show ?thesis by simp
  qed
qed

lemma universal_newlines_no_cr:
  "carriage_return \<notin> set s \<Longrightarrow> universal_newlines s = s"
  by (induction s rule: universal_newlines.induct) auto

lemma universal_newlines_cr_free: "carriage_return \<notin> set (universal_newlines s)"
  by (induction s rule: universal_newlines.induct)
    (auto simp: newline_def carriage_return_def)

lemma universal_newlines_last:
  "s \<noteq> [] \<Longrightarrow> last s = newline \<or> last s = carriage_return \<Longrightarrow>
   universal_newlines s \<noteq> [] \<and> last (universal_newlines s) = newline"
  by (induction s rule: universal_newlines.induct) (auto split: if_splits)

lemma readlines_cr_free: "l \<in> set (readlines content) \<Longrightarrow> carriage_return \<notin> set l"
proof -
  assume "l \<in> set (readlines content)"
  then have "set l \<subseteq> set (concat (readlines content))"
    by auto
  then show ?thesis
    using universal_newlines_cr_free [of content]
    by (auto simp: readlines_def readlines_from_concat)
qed


section \<open>The claims\<close>

text \<open>
  Claim C1. The linter is fail-fast. For every message, the validators are called in the
  fixed order \<open>rule_order\<close> (title and body, title length, separator, trailing line, body
  length, commit type, the issue-number gate, then the issue number): the rules a run
  calls are an initial part of that order. Every call before the last call of a run gave
  a true flag, so no validator is called after a call that gave a false flag or raised.
  When the last call fails the message, the run does not return 0 and the exit status
  is 1; otherwise the run returns 0.
\<close>

theorem lint_fail_fast:
  "rule_order =
     [HasTitleAndBody, TitleWithinMaxLength, HasTitleBodySeparator, HasTrailingLine,
      BodyWithinMaxLength, TitleStartsWithCommitType, CommitTypeRequireIssueNumber,
      TitleHasIssueNumber] \<and>
   calls (fst (lint_rules m)) \<noteq> [] \<and>
   prefix (map fst (calls (fst (lint_rules m)))) rule_order \<and>
   list_all (\<lambda>c. passed (snd c)) (butlast (calls (fst (lint_rules m)))) \<and>
   (failed (last (calls (fst (lint_rules m)))) \<longrightarrow>
      snd (lint_rules m) \<noteq> Returned 0 \<and> exit_status (snd (lint_rules m)) = 1) \<and>
   (\<not> failed (last (calls (fst (lint_rules m)))) \<longrightarrow> snd (lint_rules m) = Returned 0)"
proof -
  obtain log e where le: "lint_rules m = (log, e)"
    by (cases "lint_rules m")
  have ok: "run_ok (log, e)"
    using lint_rules_run_ok [of m] le by simp
  note facts = run_ok_facts [OF ok]
  have order: "rule_order =
     [HasTitleAndBody, TitleWithinMaxLength, HasTitleBodySeparator, HasTrailingLine,
      BodyWithinMaxLength, TitleStartsWithCommitType, CommitTypeRequireIssueNumber,
      TitleHasIssueNumber]"
    by (simp add: rule_order_def)
  have "failed (last (calls log)) \<Longrightarrow> e \<noteq> Returned 0"
    using facts(4) by (auto simp: exit_status_def)
  then have "calls log \<noteq> [] \<and>
      prefix (map fst (calls log)) rule_order \<and>
      list_all (\<lambda>c. passed (snd c)) (butlast (calls log)) \<and>
      (failed (last (calls log)) \<longrightarrow> e \<noteq> Returned 0 \<and> exit_status e = 1) \<and>
      (\<not> failed (last (calls log)) \<longrightarrow> e = Returned 0)"
    using facts(1-5) by blast
  then show ?thesis
    using order le by simp
qed

text \<open>
  The message below has no blank line behind its title and no commit type either: the
  run stops at the third rule.
\<close>

theorem lint_fail_fast_witness:
  "map fst (calls (fst (lint_rules [''update readme\<newline>'', ''not blank\<newline>'', ''body\<newline>'', ''\<newline>'']))) =
     [HasTitleAndBody, TitleWithinMaxLength, HasTitleBodySeparator] \<and>
   prefix (map fst (calls (fst (lint_rules [''update readme\<newline>'', ''not blank\<newline>'', ''body\<newline>'', ''\<newline>''])))) rule_order \<and>
   list_all (\<lambda>c. passed (snd c)) (butlast (calls (fst (lint_rules [''update readme\<newline>'', ''not blank\<newline>'', ''body\<newline>'', ''\<newline>''])))) \<and>
   failed (last (calls (fst (lint_rules [''update readme\<newline>'', ''not blank\<newline>'', ''body\<newline>'', ''\<newline>''])))) \<and>
   exit_status (snd (lint_rules [''update readme\<newline>'', ''not blank\<newline>'', ''body\<newline>'', ''\<newline>''])) = 1"
proof -
  have f: "failed (last (calls (fst (lint_rules [''update readme\<newline>'', ''not blank\<newline>'', ''body\<newline>'', ''\<newline>'']))))"
    by code_simp
  have c: "map fst (calls (fst (lint_rules [''update readme\<newline>'', ''not blank\<newline>'', ''body\<newline>'', ''\<newline>'']))) =
     [HasTitleAndBody, TitleWithinMaxLength, HasTitleBodySeparator]"
    by code_simp
  show ?thesis
    using lint_fail_fast [of "[''update readme\<newline>'', ''not blank\<newline>'', ''body\<newline>'', ''\<newline>'']"] f c by blast
qed

text \<open>
  Claim C2. For every message with fewer than 4 lines the run fails at the first rule:
  \<open>has_title_and_body\<close> gives a false flag exactly when the list has fewer than 4 entries,
  and then the run is that one call, the error message and \<^verbatim>\<open>return 1\<close>.
\<close>

theorem short_message_fails_first_rule:
  "has_title_and_body m = Inr (\<not> length m < 4, HNone) \<and>
   (length m < 4 \<longrightarrow>
      lint_rules m =
        ([Call HasTitleAndBody (Inr (False, HNone)),
          Print [Msg ERROR ''Title and Body are required'']], Returned 1))"
  by (simp add: rule1_returns lint_rules_def check_fail not_less)

theorem short_message_fails_first_rule_witness:
  "has_title_and_body [''wip\<newline>''] = Inr (False, HNone) \<and>
   lint_rules [''wip\<newline>''] =
     ([Call HasTitleAndBody (Inr (False, HNone)),
       Print [Msg ERROR ''Title and Body are required'']], Returned 1)"
  using short_message_fails_first_rule [of "[''wip\<newline>'']"] by simp

text \<open>
  Claim C3. For every message that passes the first rule (at least 4 lines) and whose
  title \<open>m ! 0\<close> is longer than 50, the run fails at the second rule with the hint 50; a
  title of length at most 50 passes the second rule.
\<close>

theorem long_title_fails_second_rule:
  assumes "4 \<le> length m"
  shows "(50 < length (m ! 0) \<longrightarrow>
      lint_rules m =
        ([Call HasTitleAndBody (Inr (True, HNone)),
          Print [Msg OK ''Commit Message has a title and body.''],
          Call TitleWithinMaxLength (Inr (False, HInt 50)),
          Print [Msg ERROR ''Title is too long:'', MsgHint INFO ''Max Length: '' (HInt 50)]],
         Returned 1)) \<and>
     (length (m ! 0) \<le> 50 \<longrightarrow> title_within_max_length m = Inr (True, HNone))"
proof -
  have ne: "m \<noteq> []"
    using assms by auto
  show ?thesis
    using assms long_title_run [of m] by (simp add: rule2_returns [OF ne])
qed

theorem long_title_fails_second_rule_witness:
  "lint_rules [''feat: add a parser for the configuration file form\<newline>'', ''\<newline>'', ''body\<newline>'', ''\<newline>''] =
     ([Call HasTitleAndBody (Inr (True, HNone)),
       Print [Msg OK ''Commit Message has a title and body.''],
       Call TitleWithinMaxLength (Inr (False, HInt 50)),
       Print [Msg ERROR ''Title is too long:'', MsgHint INFO ''Max Length: '' (HInt 50)]],
      Returned 1) \<and>
   title_within_max_length [''fix: typo\<newline>'', ''\<newline>'', ''body\<newline>'', ''\<newline>''] = Inr (True, HNone)"
proof -
  have a: "4 \<le> length [''feat: add a parser for the configuration file form\<newline>'', ''\<newline>'', ''body\<newline>'', ''\<newline>'']"
    and b: "50 < length ([''feat: add a parser for the configuration file form\<newline>'', ''\<newline>'', ''body\<newline>'', ''\<newline>''] ! 0)"
    by simp_all
  have c: "4 \<le> length [''fix: typo\<newline>'', ''\<newline>'', ''body\<newline>'', ''\<newline>'']"
    and d: "length ([''fix: typo\<newline>'', ''\<newline>'', ''body\<newline>'', ''\<newline>''] ! 0) \<le> 50"
    by simp_all
  show ?thesis
    using long_title_fails_second_rule [OF a] b long_title_fails_second_rule [OF c] d
    by blast
qed

text \<open>
  Claim C4, as amended. In \<open>title_has_issue_number\<close> a handle matches when it occurs
  anywhere in the title (\<open>sublist\<close>), the handles are tried in the order jr:, gh:, gl:,
  bb:, lp:, and only the first one in that order that occurs is looked at, at its first
  occurrence in the title. The rule passes if and only if the text behind that occurrence
  is: whitespace (possibly none), then a non-empty run of digits, and behind the run the
  end of the title, a whitespace character, or the same handle again.
\<close>

theorem tracker_number_rule:
  "map fst valid_issue_tracker_prefixes = [''jr:'', ''gh:'', ''gl:'', ''bb:'', ''lp:''] \<and>
   (title_has_issue_number (title # rest) = Inr (True, HNone) \<longleftrightarrow>
    (\<exists>i p a r ws tok rest'.
       i < length valid_issue_tracker_prefixes \<and>
       p = fst (valid_issue_tracker_prefixes ! i) \<and>
       sublist p title \<and>
       (\<forall>j<i. \<not> sublist (fst (valid_issue_tracker_prefixes ! j)) title) \<and>
       title = a @ p @ r \<and> \<not> sublist p (a @ butlast p) \<and>
       r = ws @ tok @ rest' \<and> list_all py_isspace ws \<and>
       tok \<noteq> [] \<and> list_all py_isdigit_char tok \<and>
       (rest' = [] \<or> py_isspace (hd rest') \<or> prefix p rest')))"
proof (intro conjI iffI)
  show "map fst valid_issue_tracker_prefixes = [''jr:'', ''gh:'', ''gl:'', ''bb:'', ''lp:'']"
    by (simp add: valid_issue_tracker_prefixes_def)
next
  assume pass: "title_has_issue_number (title # rest) = Inr (True, HNone)"
  then obtain x where f: "find (\<lambda>(t, n). py_in t title) valid_issue_tracker_prefixes = Some x"
    by (cases "find (\<lambda>(t, n). py_in t title) valid_issue_tracker_prefixes")
      (simp_all add: title_has_issue_number_Cons)
  obtain p n where x: "x = (p, n)"
    by (cases x)
  obtain i where i: "i < length valid_issue_tracker_prefixes"
    "x = valid_issue_tracker_prefixes ! i"
    "sublist (fst (valid_issue_tracker_prefixes ! i)) title"
    "\<forall>j<i. \<not> sublist (fst (valid_issue_tracker_prefixes ! j)) title"
    using f first_tracker_iff [of title x] by blast
  have p: "p = fst (valid_issue_tracker_prefixes ! i)"
    using i(2) x by (metis fst_conv)
  have "(p, n) \<in> set valid_issue_tracker_prefixes"
    using i(1,2) x by (metis nth_mem)
  then have pne: "p \<noteq> []"
    using tracker_handle by blast
  obtain a r where first: "title = a @ p @ r" "\<not> sublist p (a @ butlast p)"
    using first_occurrence [OF pne] i(3) p by blast
  have "\<exists>tok. issue_number_of title p = Inr tok \<and> py_isdigit tok"
    using pass f x
    by (auto simp: title_has_issue_number_Cons split: sum.splits if_splits)
  then obtain ws tok rest' where "r = ws @ tok @ rest'" "list_all py_isspace ws" "tok \<noteq> []"
    "list_all py_isdigit_char tok" "rest' = [] \<or> py_isspace (hd rest') \<or> prefix p rest'"
    using issue_number_of_digits [OF i(1) p first] by blast
  with i p first
  show "\<exists>i p a r ws tok rest'.
       i < length valid_issue_tracker_prefixes \<and>
       p = fst (valid_issue_tracker_prefixes ! i) \<and>
       sublist p title \<and>
       (\<forall>j<i. \<not> sublist (fst (valid_issue_tracker_prefixes ! j)) title) \<and>
       title = a @ p @ r \<and> \<not> sublist p (a @ butlast p) \<and>
       r = ws @ tok @ rest' \<and> list_all py_isspace ws \<and>
       tok \<noteq> [] \<and> list_all py_isdigit_char tok \<and>
       (rest' = [] \<or> py_isspace (hd rest') \<or> prefix p rest')"
    by blast
next
  assume "\<exists>i p a r ws tok rest'.
       i < length valid_issue_tracker_prefixes \<and>
       p = fst (valid_issue_tracker_prefixes ! i) \<and>
       sublist p title \<and>
       (\<forall>j<i. \<not> sublist (fst (valid_issue_tracker_prefixes ! j)) title) \<and>
       title = a @ p @ r \<and> \<not> sublist p (a @ butlast p) \<and>
       r = ws @ tok @ rest' \<and> list_all py_isspace ws \<and>
       tok \<noteq> [] \<and> list_all py_isdigit_char tok \<and>
       (rest' = [] \<or> py_isspace (hd rest') \<or> prefix p rest')"
  then obtain i p a r ws tok rest' where i: "i < length valid_issue_tracker_prefixes"
    and p: "p = fst (valid_issue_tracker_prefixes ! i)"
    and occ: "sublist p title"
      "\<forall>j<i. \<not> sublist (fst (valid_issue_tracker_prefixes ! j)) title"
    and first: "title = a @ p @ r" "\<not> sublist p (a @ butlast p)"
    and num: "r = ws @ tok @ rest'" "list_all py_isspace ws" "tok \<noteq> []"
      "list_all py_isdigit_char tok" "rest' = [] \<or> py_isspace (hd rest') \<or> prefix p rest'"
    by blast
  have f: "find (\<lambda>(t, n). py_in t title) valid_issue_tracker_prefixes =
      Some (valid_issue_tracker_prefixes ! i)"
    using i p occ first_tracker_iff [of title "valid_issue_tracker_prefixes ! i"] by blast
  obtain tok' where "issue_number_of title p = Inr tok'" "py_isdigit tok'"
    using issue_number_of_digits [OF i p first] num by blast
  then show "title_has_issue_number (title # rest) = Inr (True, HNone)"
    using f p by (simp add: title_has_issue_number_Cons case_prod_beta)
qed

theorem tracker_number_rule_witness:
  "title_has_issue_number [''feat: add x gh:42\<newline>'', ''\<newline>'', ''body line\<newline>'', ''\<newline>''] = Inr (True, HNone)"
proof -
  have "\<exists>i p a r ws tok rest'.
       i < length valid_issue_tracker_prefixes \<and>
       p = fst (valid_issue_tracker_prefixes ! i) \<and>
       sublist p ''feat: add x gh:42\<newline>'' \<and>
       (\<forall>j<i. \<not> sublist (fst (valid_issue_tracker_prefixes ! j)) ''feat: add x gh:42\<newline>'') \<and>
       ''feat: add x gh:42\<newline>'' = a @ p @ r \<and> \<not> sublist p (a @ butlast p) \<and>
       r = ws @ tok @ rest' \<and> list_all py_isspace ws \<and>
       tok \<noteq> [] \<and> list_all py_isdigit_char tok \<and>
       (rest' = [] \<or> py_isspace (hd rest') \<or> prefix p rest')"
    apply (rule exI [of _ 1])
    apply (rule exI [of _ "''gh:''"])
    apply (rule exI [of _ "''feat: add x ''"])
    apply (rule exI [of _ "''42\<newline>''"])
    apply (rule exI [of _ "[]"])
    apply (rule exI [of _ "''42''"])
    apply (rule exI [of _ "''\<newline>''"])
    apply (simp add: valid_issue_tracker_prefixes_def py_in_sublist [symmetric]
        py_isspace_def py_isdigit_char_def)
    done
  then show ?thesis
    using tracker_number_rule [of "''feat: add x gh:42\<newline>''"
        "[''\<newline>'', ''body line\<newline>'', ''\<newline>'']"]
    by blast
qed

text \<open>
  Claim C4 as it is stated fails. In the title below the first handle that occurs is jr:,
  the characters behind its first occurrence up to the next whitespace are \<open>12jr:ab\<close>,
  which are not all digits, and the rule passes: \<^verbatim>\<open>split\<close> cuts the text at the second
  jr: and the number read is 12.
\<close>

theorem tracker_number_run_counterexample:
  "title_has_issue_number [''fix: retry jr:12jr:ab\<newline>'', ''\<newline>'', ''body\<newline>'', ''\<newline>''] = Inr (True, HNone) \<and>
   ''fix: retry jr:12jr:ab\<newline>'' = ''fix: retry '' @ ''jr:'' @ ''12jr:ab\<newline>'' \<and>
   fst (valid_issue_tracker_prefixes ! 0) = ''jr:'' \<and>
   \<not> sublist ''jr:'' (''fix: retry '' @ butlast ''jr:'') \<and>
   takeWhile (\<lambda>c. \<not> py_isspace c) ''12jr:ab\<newline>'' = ''12jr:ab'' \<and>
   \<not> list_all py_isdigit_char ''12jr:ab''"
  by code_simp

text \<open>
  Whitespace between the handle and the number is skipped as well: \<^verbatim>\<open>split()\<close> drops
  leading whitespace.
\<close>

lemma tracker_number_after_space:
  "title_has_issue_number [''fix: retry jr: 12\<newline>'', ''\<newline>'', ''body\<newline>'', ''\<newline>'']
     = Inr (True, HNone)"
  by code_simp

text \<open>
  Claim C5 fails on the code. When nothing but whitespace stands behind the first
  occurrence of the first handle that occurs (the handle ends the title, before the
  line feed), \<^verbatim>\<open>title.split(issue_tracker)[1].split()\<close> is the empty list and its
  element 0 raises IndexError: \<open>title_has_issue_number\<close> gives no outcome.
\<close>

theorem issue_number_missing_raises:
  assumes i: "i < length valid_issue_tracker_prefixes"
    and p: "p = fst (valid_issue_tracker_prefixes ! i)"
    and occ: "\<forall>j<i. \<not> sublist (fst (valid_issue_tracker_prefixes ! j)) title"
    and first: "title = a @ p @ ws" "\<not> sublist p (a @ butlast p)"
    and ws: "list_all py_isspace ws"
  shows "title_has_issue_number (title # rest) = Inl IndexError"
proof -
  have "(p, snd (valid_issue_tracker_prefixes ! i)) \<in> set valid_issue_tracker_prefixes"
    using i p by (metis nth_mem prod.collapse)
  then have hp: "p \<noteq> []" "\<not> py_isspace (hd p)"
    using tracker_handle by blast+
  have "sublist p title"
    using first(1) by (metis sublist_appendI)
  then have f: "find (\<lambda>(t, n). py_in t title) valid_issue_tracker_prefixes =
      Some (valid_issue_tracker_prefixes ! i)"
    using i p occ first_tracker_iff [of title "valid_issue_tracker_prefixes ! i"] by blast
  have "\<forall>c\<in>set ws. c \<noteq> hd p"
    using ws hp(2) by (auto simp: list_all_iff)
  from split_from_nonstart [OF hp(1) this, of "[]" "[]"]
  have "split_from p [] ws = [ws]"
    by simp
  moreover have "dropWhile py_isspace ws = []"
    using ws by (simp add: list_all_iff)
  ultimately have "issue_number_of title p = Inl IndexError"
    using issue_number_of_first [OF hp(1) first(2), of ws] first(1)
    by (simp add: first_token py_index_nil del: dropWhile_eq_Nil_conv)
  then show ?thesis
    using f p by (simp add: title_has_issue_number_Cons case_prod_beta)
qed

theorem issue_number_missing_raises_witness:
  "get_commit_message ''fix: crash on start jr:\<newline>\<newline>body\<newline>\<newline>'' False = [''fix: crash on start jr:\<newline>'', ''\<newline>'', ''body\<newline>'', ''\<newline>''] \<and>
   title_has_issue_number [''fix: crash on start jr:\<newline>'', ''\<newline>'', ''body\<newline>'', ''\<newline>''] = Inl IndexError \<and>
   snd (lint_commit_message ''fix: crash on start jr:\<newline>\<newline>body\<newline>\<newline>'') = Raised IndexError"
proof -
  have i: "0 < length valid_issue_tracker_prefixes"
    and p: "''jr:'' = fst (valid_issue_tracker_prefixes ! 0)"
    by (simp_all add: valid_issue_tracker_prefixes_def)
  have occ: "\<forall>j<0. \<not> sublist (fst (valid_issue_tracker_prefixes ! j)) ''fix: crash on start jr:\<newline>''"
    by simp
  have t: "''fix: crash on start jr:\<newline>'' = ''fix: crash on start '' @ ''jr:'' @ ''\<newline>''"
    by simp
  have first: "\<not> sublist ''jr:'' (''fix: crash on start '' @ butlast ''jr:'')"
    by code_simp
  have ws: "list_all py_isspace ''\<newline>''"
    by code_simp
  have g: "get_commit_message ''fix: crash on start jr:\<newline>\<newline>body\<newline>\<newline>'' False = [''fix: crash on start jr:\<newline>'', ''\<newline>'', ''body\<newline>'', ''\<newline>'']"
    by code_simp
  have l: "snd (lint_commit_message ''fix: crash on start jr:\<newline>\<newline>body\<newline>\<newline>'') = Raised IndexError"
    by code_simp
  show ?thesis
    using issue_number_missing_raises [OF i p occ t first ws,
        of "[''\<newline>'', ''body\<newline>'', ''\<newline>'']"] g l
    by blast
qed




text \<open>
  In scenario E the run does not reach \<^verbatim>\<open>return 1\<close>: with the pair \<^verbatim>\<open>(None, False)\<close> as
  hint, the loop \<^verbatim>\<open>for handle, name in hint\<close> unpacks \<^verbatim>\<open>None\<close> and raises TypeError
  before anything is printed for the call. The process still ends with status 1.
\<close>

lemma marker_report_raises:
  "issue_tracker_report HNoneFalse = Inl TypeError \<and>
   snd (lint_rules [''feat: add x jr:abc\<newline>'', ''\<newline>'', ''b\<newline>'', ''\<newline>'']) = Raised TypeError \<and>
   exit_status (snd (lint_rules [''feat: add x jr:abc\<newline>'', ''\<newline>'', ''b\<newline>'', ''\<newline>''])) = 1"
  by code_simp

text \<open>
  Claim C7. \<open>body_within_max_length\<close> passes if and only if every line of the body
  \<^verbatim>\<open>lines[2:-1]\<close> (the message without its first two lines and its last line) has
  length at most 72. When it fails, the hint is the position of the first line that is
  too long, counted from 1 within the body: one more than the number of lines before it.
  So a message that passes the first four rules and whose second body line is the first
  one that is too long (73 characters, behind a first line of at most 72) fails at the
  fifth rule with the hint 2.
\<close>

theorem body_rule:
  "body_within_max_length m =
     (if \<forall>l\<in>set (butlast (drop 2 m)). length l \<le> 72 then Inr (True, HNone)
      else Inr (False,
        HInt (1 + int (length (takeWhile (\<lambda>l. length l \<le> 72) (butlast (drop 2 m))))))) \<and>
   (has_title_and_body m = Inr (True, HNone) \<and>
    title_within_max_length m = Inr (True, HNone) \<and>
    has_title_body_separator m = Inr (True, HNone) \<and>
    has_trailing_line m = Inr (True, HNone) \<and>
    2 \<le> length (butlast (drop 2 m)) \<and>
    length (butlast (drop 2 m) ! 0) \<le> 72 \<and> length (butlast (drop 2 m) ! 1) = 73 \<longrightarrow>
      calls (fst (lint_rules m)) =
        [(HasTitleAndBody, Inr (True, HNone)), (TitleWithinMaxLength, Inr (True, HNone)),
         (HasTitleBodySeparator, Inr (True, HNone)), (HasTrailingLine, Inr (True, HNone)),
         (BodyWithinMaxLength, Inr (False, HInt 2))] \<and>
      snd (lint_rules m) = Returned 1)"
proof (intro conjI impI)
  show "body_within_max_length m =
     (if \<forall>l\<in>set (butlast (drop 2 m)). length l \<le> 72 then Inr (True, HNone)
      else Inr (False,
        HInt (1 + int (length (takeWhile (\<lambda>l. length l \<le> 72) (butlast (drop 2 m)))))))"
    by (simp add: rule5_returns body_lines_eq)
next
  assume a: "has_title_and_body m = Inr (True, HNone) \<and>
    title_within_max_length m = Inr (True, HNone) \<and>
    has_title_body_separator m = Inr (True, HNone) \<and>
    has_trailing_line m = Inr (True, HNone) \<and>
    2 \<le> length (butlast (drop 2 m)) \<and>
    length (butlast (drop 2 m) ! 0) \<le> 72 \<and> length (butlast (drop 2 m) ! 1) = 73"
  then obtain b0 b1 bs where body: "butlast (drop 2 m) = b0 # b1 # bs"
    by (cases "butlast (drop 2 m)"; cases "tl (butlast (drop 2 m))") auto
  have "body_within_max_length m = Inr (False, HInt 2)"
    using a body by (simp add: rule5_returns)
  with a show "calls (fst (lint_rules m)) =
        [(HasTitleAndBody, Inr (True, HNone)), (TitleWithinMaxLength, Inr (True, HNone)),
         (HasTitleBodySeparator, Inr (True, HNone)), (HasTrailingLine, Inr (True, HNone)),
         (BodyWithinMaxLength, Inr (False, HInt 2))]"
    and "snd (lint_rules m) = Returned 1"
    by (simp_all add: lint_rules_def check_def)
qed

theorem body_rule_witness:
  "calls (fst (lint_rules [''docs: describe the format\<newline>'', ''\<newline>'', ''a short line\<newline>'', ''this line of the body holds exactly seventy-two visible characters, not \<newline>'', ''\<newline>''])) =
     [(HasTitleAndBody, Inr (True, HNone)), (TitleWithinMaxLength, Inr (True, HNone)),
      (HasTitleBodySeparator, Inr (True, HNone)), (HasTrailingLine, Inr (True, HNone)),
      (BodyWithinMaxLength, Inr (False, HInt 2))] \<and>
   snd (lint_rules [''docs: describe the format\<newline>'', ''\<newline>'', ''a short line\<newline>'', ''this line of the body holds exactly seventy-two visible characters, not \<newline>'', ''\<newline>'']) = Returned 1"
proof -
  have h: "has_title_and_body [''docs: describe the format\<newline>'', ''\<newline>'', ''a short line\<newline>'', ''this line of the body holds exactly seventy-two visible characters, not \<newline>'', ''\<newline>''] = Inr (True, HNone) \<and>
    title_within_max_length [''docs: describe the format\<newline>'', ''\<newline>'', ''a short line\<newline>'', ''this line of the body holds exactly seventy-two visible characters, not \<newline>'', ''\<newline>''] = Inr (True, HNone) \<and>
    has_title_body_separator [''docs: describe the format\<newline>'', ''\<newline>'', ''a short line\<newline>'', ''this line of the body holds exactly seventy-two visible characters, not \<newline>'', ''\<newline>''] = Inr (True, HNone) \<and>
    has_trailing_line [''docs: describe the format\<newline>'', ''\<newline>'', ''a short line\<newline>'', ''this line of the body holds exactly seventy-two visible characters, not \<newline>'', ''\<newline>''] = Inr (True, HNone) \<and>
    2 \<le> length (butlast (drop 2 [''docs: describe the format\<newline>'', ''\<newline>'', ''a short line\<newline>'', ''this line of the body holds exactly seventy-two visible characters, not \<newline>'', ''\<newline>''])) \<and>
    length (butlast (drop 2 [''docs: describe the format\<newline>'', ''\<newline>'', ''a short line\<newline>'', ''this line of the body holds exactly seventy-two visible characters, not \<newline>'', ''\<newline>'']) ! 0) \<le> 72 \<and>
    length (butlast (drop 2 [''docs: describe the format\<newline>'', ''\<newline>'', ''a short line\<newline>'', ''this line of the body holds exactly seventy-two visible characters, not \<newline>'', ''\<newline>'']) ! 1) = 73"
    by code_simp
  show ?thesis
    using body_rule [of "[''docs: describe the format\<newline>'', ''\<newline>'', ''a short line\<newline>'', ''this line of the body holds exactly seventy-two visible characters, not \<newline>'', ''\<newline>'']"] h by blast
qed

text \<open>
  Claim C8. The gate \<open>commit_type_require_issue_number\<close> never fails the message. Its
  flag is true exactly when the title starts with feat: or fix:, and a run whose last
  call is the gate returns 0. A message that passes the first six rules with a title that
  starts with neither feat: nor fix: returns 0 after the gate, without a call of
  \<open>title_has_issue_number\<close>. A message that passes the first six rules with a title that
  starts with feat: or fix: gets the true flag from the gate and \<open>title_has_issue_number\<close>
  is called next; that call, not the gate, decides the run, which returns 0 exactly when
  the call passes.
\<close>

theorem gate_never_fails:
  "(m \<noteq> [] \<longrightarrow>
      commit_type_require_issue_number m =
        Inr (prefix ''feat:'' (m ! 0) \<or> prefix ''fix:'' (m ! 0), HNone)) \<and>
   (fst (last (calls (fst (lint_rules m)))) = CommitTypeRequireIssueNumber \<longrightarrow>
      snd (lint_rules m) = Returned 0) \<and>
   (has_title_and_body m = Inr (True, HNone) \<and>
    title_within_max_length m = Inr (True, HNone) \<and>
    has_title_body_separator m = Inr (True, HNone) \<and>
    has_trailing_line m = Inr (True, HNone) \<and>
    body_within_max_length m = Inr (True, HNone) \<and>
    title_starts_with_commit_type m = Inr (True, HNone) \<and>
    \<not> prefix ''feat:'' (m ! 0) \<and> \<not> prefix ''fix:'' (m ! 0) \<longrightarrow>
      calls (fst (lint_rules m)) =
        [(HasTitleAndBody, Inr (True, HNone)), (TitleWithinMaxLength, Inr (True, HNone)),
         (HasTitleBodySeparator, Inr (True, HNone)), (HasTrailingLine, Inr (True, HNone)),
         (BodyWithinMaxLength, Inr (True, HNone)),
         (TitleStartsWithCommitType, Inr (True, HNone)),
         (CommitTypeRequireIssueNumber, Inr (False, HNone))] \<and>
      snd (lint_rules m) = Returned 0) \<and>
   (has_title_and_body m = Inr (True, HNone) \<and>
    title_within_max_length m = Inr (True, HNone) \<and>
    has_title_body_separator m = Inr (True, HNone) \<and>
    has_trailing_line m = Inr (True, HNone) \<and>
    body_within_max_length m = Inr (True, HNone) \<and>
    title_starts_with_commit_type m = Inr (True, HNone) \<and>
    (prefix ''feat:'' (m ! 0) \<or> prefix ''fix:'' (m ! 0)) \<longrightarrow>
      calls (fst (lint_rules m)) =
        [(HasTitleAndBody, Inr (True, HNone)), (TitleWithinMaxLength, Inr (True, HNone)),
         (HasTitleBodySeparator, Inr (True, HNone)), (HasTrailingLine, Inr (True, HNone)),
         (BodyWithinMaxLength, Inr (True, HNone)),
         (TitleStartsWithCommitType, Inr (True, HNone)),
         (CommitTypeRequireIssueNumber, Inr (True, HNone)),
         (TitleHasIssueNumber, title_has_issue_number m)] \<and>
      (snd (lint_rules m) = Returned 0) = passed (title_has_issue_number m))"
proof (intro conjI impI)
  assume "m \<noteq> []"
  then show "commit_type_require_issue_number m =
        Inr (prefix ''feat:'' (m ! 0) \<or> prefix ''fix:'' (m ! 0), HNone)"
    by (simp add: gate_returns py_startswith_def)
next
  assume g: "fst (last (calls (fst (lint_rules m)))) = CommitTypeRequireIssueNumber"
  obtain log e where le: "lint_rules m = (log, e)"
    by (cases "lint_rules m")
  have "run_ok (log, e)"
    using lint_rules_run_ok [of m] le by simp
  from run_ok_facts(5) [OF this] g le show "snd (lint_rules m) = Returned 0"
    by (simp add: failed_iff)
next
  assume a: "has_title_and_body m = Inr (True, HNone) \<and>
    title_within_max_length m = Inr (True, HNone) \<and>
    has_title_body_separator m = Inr (True, HNone) \<and>
    has_trailing_line m = Inr (True, HNone) \<and>
    body_within_max_length m = Inr (True, HNone) \<and>
    title_starts_with_commit_type m = Inr (True, HNone) \<and>
    \<not> prefix ''feat:'' (m ! 0) \<and> \<not> prefix ''fix:'' (m ! 0)"
  then have "4 \<le> length m"
    by (simp add: rule1_returns)
  then have "m \<noteq> []"
    by auto
  then have g: "commit_type_require_issue_number m = Inr (False, HNone)"
    using a by (simp add: gate_returns py_startswith_def)
  show "calls (fst (lint_rules m)) =
        [(HasTitleAndBody, Inr (True, HNone)), (TitleWithinMaxLength, Inr (True, HNone)),
         (HasTitleBodySeparator, Inr (True, HNone)), (HasTrailingLine, Inr (True, HNone)),
         (BodyWithinMaxLength, Inr (True, HNone)),
         (TitleStartsWithCommitType, Inr (True, HNone)),
         (CommitTypeRequireIssueNumber, Inr (False, HNone))]"
    using a g by (simp add: lint_rules_def check_def require_issue_number_def)
  show "snd (lint_rules m) = Returned 0"
    using a g by (simp add: lint_rules_def check_def require_issue_number_def)
next
  assume a: "has_title_and_body m = Inr (True, HNone) \<and>
    title_within_max_length m = Inr (True, HNone) \<and>
    has_title_body_separator m = Inr (True, HNone) \<and>
    has_trailing_line m = Inr (True, HNone) \<and>
    body_within_max_length m = Inr (True, HNone) \<and>
    title_starts_with_commit_type m = Inr (True, HNone) \<and>
    (prefix ''feat:'' (m ! 0) \<or> prefix ''fix:'' (m ! 0))"
  then have "4 \<le> length m"
    by (simp add: rule1_returns)
  then have "m \<noteq> []"
    by auto
  then have g: "commit_type_require_issue_number m = Inr (True, HNone)"
    using a by (simp add: gate_returns py_startswith_def)
  have run: "lint_rules m =
      require_issue_number m
        [Call HasTitleAndBody (Inr (True, HNone)),
         Print [Msg OK ''Commit Message has a title and body.''],
         Call TitleWithinMaxLength (Inr (True, HNone)),
         Print [Msg OK ''Title is within the maximum length.''],
         Call HasTitleBodySeparator (Inr (True, HNone)),
         Print [Msg OK ''Commit Message has a blank line between title and body.''],
         Call HasTrailingLine (Inr (True, HNone)),
         Print [Msg OK ''Commit message has a trailing line.''],
         Call BodyWithinMaxLength (Inr (True, HNone)),
         Print [Msg OK ''Commit Body lines are within the maximum length.''],
         Call TitleStartsWithCommitType (Inr (True, HNone)),
         Print [Msg OK ''Title starts with a valid commit type.'']]"
    using a by (simp add: lint_rules_def check_def)
  show "calls (fst (lint_rules m)) =
        [(HasTitleAndBody, Inr (True, HNone)), (TitleWithinMaxLength, Inr (True, HNone)),
         (HasTitleBodySeparator, Inr (True, HNone)), (HasTrailingLine, Inr (True, HNone)),
         (BodyWithinMaxLength, Inr (True, HNone)),
         (TitleStartsWithCommitType, Inr (True, HNone)),
         (CommitTypeRequireIssueNumber, Inr (True, HNone)),
         (TitleHasIssueNumber, title_has_issue_number m)]"
  proof (cases "title_has_issue_number m")
    case (Inl e)
    then show ?thesis
      using g by (simp add: run require_issue_number_def)
  next
    case (Inr out)
    obtain flag h where out: "out = (flag, h)"
      by (cases out)
    show ?thesis
      using g Inr out
      by (cases "issue_tracker_report h")
          (simp_all add: run require_issue_number_def Let_def)
  qed
  show "(snd (lint_rules m) = Returned 0) = passed (title_has_issue_number m)"
  proof (cases "title_has_issue_number m")
    case (Inl e)
    then show ?thesis
      using g by (simp add: run require_issue_number_def)
  next
    case (Inr out)
    obtain flag h where out: "out = (flag, h)"
      by (cases out)
    show ?thesis
      using g Inr out
      by (cases "issue_tracker_report h")
          (simp_all add: run require_issue_number_def Let_def)
  qed
qed

text \<open>
  Scenario C: a chore commit needs no issue number. Scenario B: a feat commit goes on
  to \<open>title_has_issue_number\<close>.
\<close>

theorem gate_never_fails_witness:
  "commit_type_require_issue_number [''chore: cleanup\<newline>'', ''\<newline>'', ''body\<newline>'', ''\<newline>''] = Inr (False, HNone) \<and>
   calls (fst (lint_rules [''chore: cleanup\<newline>'', ''\<newline>'', ''body\<newline>'', ''\<newline>''])) =
     [(HasTitleAndBody, Inr (True, HNone)), (TitleWithinMaxLength, Inr (True, HNone)),
         (HasTitleBodySeparator, Inr (True, HNone)), (HasTrailingLine, Inr (True, HNone)),
         (BodyWithinMaxLength, Inr (True, HNone)),
         (TitleStartsWithCommitType, Inr (True, HNone)),
      (CommitTypeRequireIssueNumber, Inr (False, HNone))] \<and>
   snd (lint_rules [''chore: cleanup\<newline>'', ''\<newline>'', ''body\<newline>'', ''\<newline>'']) = Returned 0 \<and>
   calls (fst (lint_rules [''feat: add x gh:42\<newline>'', ''\<newline>'', ''body line\<newline>'', ''\<newline>''])) =
     [(HasTitleAndBody, Inr (True, HNone)), (TitleWithinMaxLength, Inr (True, HNone)),
         (HasTitleBodySeparator, Inr (True, HNone)), (HasTrailingLine, Inr (True, HNone)),
         (BodyWithinMaxLength, Inr (True, HNone)),
         (TitleStartsWithCommitType, Inr (True, HNone)),
      (CommitTypeRequireIssueNumber, Inr (True, HNone)),
      (TitleHasIssueNumber, title_has_issue_number [''feat: add x gh:42\<newline>'', ''\<newline>'', ''body line\<newline>'', ''\<newline>''])] \<and>
   title_has_issue_number [''feat: add x gh:42\<newline>'', ''\<newline>'', ''body line\<newline>'', ''\<newline>''] = Inr (True, HNone)"
proof -
  have h: "has_title_and_body [''chore: cleanup\<newline>'', ''\<newline>'', ''body\<newline>'', ''\<newline>''] = Inr (True, HNone) \<and>
    title_within_max_length [''chore: cleanup\<newline>'', ''\<newline>'', ''body\<newline>'', ''\<newline>''] = Inr (True, HNone) \<and>
    has_title_body_separator [''chore: cleanup\<newline>'', ''\<newline>'', ''body\<newline>'', ''\<newline>''] = Inr (True, HNone) \<and>
    has_trailing_line [''chore: cleanup\<newline>'', ''\<newline>'', ''body\<newline>'', ''\<newline>''] = Inr (True, HNone) \<and>
    body_within_max_length [''chore: cleanup\<newline>'', ''\<newline>'', ''body\<newline>'', ''\<newline>''] = Inr (True, HNone) \<and>
    title_starts_with_commit_type [''chore: cleanup\<newline>'', ''\<newline>'', ''body\<newline>'', ''\<newline>''] = Inr (True, HNone) \<and>
    \<not> prefix ''feat:'' ([''chore: cleanup\<newline>'', ''\<newline>'', ''body\<newline>'', ''\<newline>''] ! 0) \<and>
    \<not> prefix ''fix:'' ([''chore: cleanup\<newline>'', ''\<newline>'', ''body\<newline>'', ''\<newline>''] ! 0)"
    by code_simp
  have g: "commit_type_require_issue_number [''chore: cleanup\<newline>'', ''\<newline>'', ''body\<newline>'', ''\<newline>''] = Inr (False, HNone)"
    by code_simp
  have hb: "has_title_and_body [''feat: add x gh:42\<newline>'', ''\<newline>'', ''body line\<newline>'', ''\<newline>''] = Inr (True, HNone) \<and>
    title_within_max_length [''feat: add x gh:42\<newline>'', ''\<newline>'', ''body line\<newline>'', ''\<newline>''] = Inr (True, HNone) \<and>
    has_title_body_separator [''feat: add x gh:42\<newline>'', ''\<newline>'', ''body line\<newline>'', ''\<newline>''] = Inr (True, HNone) \<and>
    has_trailing_line [''feat: add x gh:42\<newline>'', ''\<newline>'', ''body line\<newline>'', ''\<newline>''] = Inr (True, HNone) \<and>
    body_within_max_length [''feat: add x gh:42\<newline>'', ''\<newline>'', ''body line\<newline>'', ''\<newline>''] = Inr (True, HNone) \<and>
    title_starts_with_commit_type [''feat: add x gh:42\<newline>'', ''\<newline>'', ''body line\<newline>'', ''\<newline>''] = Inr (True, HNone) \<and>
    (prefix ''feat:'' ([''feat: add x gh:42\<newline>'', ''\<newline>'', ''body line\<newline>'', ''\<newline>''] ! 0) \<or>
     prefix ''fix:'' ([''feat: add x gh:42\<newline>'', ''\<newline>'', ''body line\<newline>'', ''\<newline>''] ! 0))"
    by code_simp
  have tb: "title_has_issue_number [''feat: add x gh:42\<newline>'', ''\<newline>'', ''body line\<newline>'', ''\<newline>''] = Inr (True, HNone)"
    by code_simp
  show ?thesis
    using gate_never_fails [of "[''chore: cleanup\<newline>'', ''\<newline>'', ''body\<newline>'', ''\<newline>'']"] h g
      gate_never_fails [of "[''feat: add x gh:42\<newline>'', ''\<newline>'', ''body line\<newline>'', ''\<newline>'']"] hb tb
    by blast
qed

text \<open>
  Claim C9. Scenario B passes every rule and the process ends with status 0. For every
  message the exit status is 1 when some call of the run fails the message and 0
  otherwise; status 0 means that the linter returned 0 after it called the first seven
  rules or all eight. (\<open>exit_status\<close>: the linter's return value, or 1 when it raised.)
\<close>

theorem exit_status_rule:
  "map fst (calls (fst (lint_rules [''feat: add x gh:42\<newline>'', ''\<newline>'', ''body line\<newline>'', ''\<newline>'']))) = rule_order \<and>
   list_all (\<lambda>c. passed (snd c)) (calls (fst (lint_rules [''feat: add x gh:42\<newline>'', ''\<newline>'', ''body line\<newline>'', ''\<newline>'']))) \<and>
   snd (lint_rules [''feat: add x gh:42\<newline>'', ''\<newline>'', ''body line\<newline>'', ''\<newline>'']) = Returned 0 \<and>
   exit_status (snd (lint_rules [''feat: add x gh:42\<newline>'', ''\<newline>'', ''body line\<newline>'', ''\<newline>''])) = 0 \<and>
   exit_status (snd (lint_rules m)) =
     (if list_ex failed (calls (fst (lint_rules m))) then 1 else 0) \<and>
   (exit_status (snd (lint_rules m)) = 0 \<longrightarrow>
      snd (lint_rules m) = Returned 0 \<and>
      (map fst (calls (fst (lint_rules m))) = take 7 rule_order \<or>
       map fst (calls (fst (lint_rules m))) = rule_order))"
proof -
  have scenario: "map fst (calls (fst (lint_rules [''feat: add x gh:42\<newline>'', ''\<newline>'', ''body line\<newline>'', ''\<newline>'']))) = rule_order"
    "list_all (\<lambda>c. passed (snd c)) (calls (fst (lint_rules [''feat: add x gh:42\<newline>'', ''\<newline>'', ''body line\<newline>'', ''\<newline>''])))"
    "snd (lint_rules [''feat: add x gh:42\<newline>'', ''\<newline>'', ''body line\<newline>'', ''\<newline>'']) = Returned 0"
    "exit_status (snd (lint_rules [''feat: add x gh:42\<newline>'', ''\<newline>'', ''body line\<newline>'', ''\<newline>''])) = 0"
    by code_simp+
  obtain log e where le: "lint_rules m = (log, e)"
    by (cases "lint_rules m")
  have ok: "run_ok (log, e)"
    using lint_rules_run_ok [of m] le by simp
  note facts = run_ok_facts [OF ok]
  have general: "exit_status (snd (lint_rules m)) =
     (if list_ex failed (calls (fst (lint_rules m))) then 1 else 0) \<and>
   (exit_status (snd (lint_rules m)) = 0 \<longrightarrow>
      snd (lint_rules m) = Returned 0 \<and>
      (map fst (calls (fst (lint_rules m))) = take 7 rule_order \<or>
       map fst (calls (fst (lint_rules m))) = rule_order))"
  proof (cases "failed (last (calls log))")
    case True
    then show ?thesis
      using facts(4,6) le by simp
  next
    case False
    then have e: "e = Returned 0" and len: "7 \<le> length (calls log)"
      using facts(5) by simp_all
    obtain zs where zs: "rule_order = map fst (calls log) @ zs"
      using facts(2) by (auto simp: prefix_def)
    have l8: "length rule_order = 8"
      by (simp add: rule_order_def)
    then have "length (calls log) + length zs = 8"
      by (metis zs length_append length_map)
    then have "length (calls log) = 7 \<or> length (calls log) = 8"
      using len by arith
    moreover have tk: "take (length (calls log)) rule_order = map fst (calls log)"
      by (subst zs) simp
    ultimately have "map fst (calls log) = take 7 rule_order \<or> map fst (calls log) = rule_order"
      using l8 by (metis order_refl take_all)
    then show ?thesis
      using False facts(6) e le by (simp add: exit_status_def)
  qed
  show ?thesis
    using scenario general by blast
qed

text \<open>Scenario B ends with status 0, scenario A (no handle in a feat title) with 1.\<close>

theorem exit_status_rule_witness:
  "\<not> list_ex failed (calls (fst (lint_rules [''feat: add x gh:42\<newline>'', ''\<newline>'', ''body line\<newline>'', ''\<newline>'']))) \<and>
   exit_status (snd (lint_rules [''feat: add x gh:42\<newline>'', ''\<newline>'', ''body line\<newline>'', ''\<newline>''])) = 0 \<and>
   list_ex failed (calls (fst (lint_rules [''feat: add x\<newline>'', ''\<newline>'', ''body line\<newline>'', ''\<newline>'']))) \<and>
   exit_status (snd (lint_rules [''feat: add x\<newline>'', ''\<newline>'', ''body line\<newline>'', ''\<newline>''])) = 1"
proof -
  have b: "\<not> list_ex failed (calls (fst (lint_rules [''feat: add x gh:42\<newline>'', ''\<newline>'', ''body line\<newline>'', ''\<newline>''])))"
    and a: "list_ex failed (calls (fst (lint_rules [''feat: add x\<newline>'', ''\<newline>'', ''body line\<newline>'', ''\<newline>''])))"
    by code_simp+
  have "exit_status (snd (lint_rules [''feat: add x gh:42\<newline>'', ''\<newline>'', ''body line\<newline>'', ''\<newline>''])) =
      (if list_ex failed (calls (fst (lint_rules [''feat: add x gh:42\<newline>'', ''\<newline>'', ''body line\<newline>'', ''\<newline>'']))) then 1 else 0)"
    using exit_status_rule [of "[''feat: add x gh:42\<newline>'', ''\<newline>'', ''body line\<newline>'', ''\<newline>'']"] by blast
  then have "exit_status (snd (lint_rules [''feat: add x gh:42\<newline>'', ''\<newline>'', ''body line\<newline>'', ''\<newline>''])) = 0"
    using b by (simp only: if_False)
  moreover have "exit_status (snd (lint_rules [''feat: add x\<newline>'', ''\<newline>'', ''body line\<newline>'', ''\<newline>''])) =
      (if list_ex failed (calls (fst (lint_rules [''feat: add x\<newline>'', ''\<newline>'', ''body line\<newline>'', ''\<newline>'']))) then 1 else 0)"
    using exit_status_rule [of "[''feat: add x\<newline>'', ''\<newline>'', ''body line\<newline>'', ''\<newline>'']"] by blast
  then have "exit_status (snd (lint_rules [''feat: add x\<newline>'', ''\<newline>'', ''body line\<newline>'', ''\<newline>''])) = 1"
    using a by (simp only: if_True)
  ultimately show ?thesis
    using a b by blast
qed

text \<open>
  Claim C10. The reader keeps the line feed of every line, so the length checks count
  it. The text that \<open>readlines\<close> cuts is the text of the file with every CR LF and every
  other CR read as one line feed, and nothing else changed; dropping the comment lines
  leaves the other lines as they are; every line but the last of the file ends with a
  line feed, and the last does when the file ends with a line terminator. A title of
  \<open>v\<close> and a line feed passes the second rule exactly when \<open>v\<close> has at most 49
  characters; with 50 characters the run fails at the second rule with the hint 50. When
  the body lines end with a line feed, the fifth rule passes exactly when each has at
  most 71 characters before it, and a body line of 72 characters and a line feed makes
  it fail.
\<close>

theorem newline_is_counted:
  "concat (readlines content) = universal_newlines content \<and>
   (carriage_return \<notin> set content \<longrightarrow> concat (readlines content) = content) \<and>
   (\<forall>l\<in>set (readlines content). carriage_return \<notin> set l) \<and>
   set (get_commit_message content False) \<subseteq> set (readlines content) \<and>
   (\<forall>l\<in>set (get_commit_message content False).
      l \<noteq> [] \<and> (last l = newline \<or> l = last (readlines content))) \<and>
   (content = [] \<or> last content = newline \<or> last content = carriage_return \<longrightarrow>
      (\<forall>l\<in>set (get_commit_message content False). l \<noteq> [] \<and> last l = newline)) \<and>
   title_within_max_length ((v @ [newline]) # rest) =
     (if length v \<le> 49 then Inr (True, HNone) else Inr (False, HInt 50)) \<and>
   (3 \<le> length rest \<and> length v = 50 \<longrightarrow>
      calls (fst (lint_rules ((v @ [newline]) # rest))) =
        [(HasTitleAndBody, Inr (True, HNone)), (TitleWithinMaxLength, Inr (False, HInt 50))] \<and>
      snd (lint_rules ((v @ [newline]) # rest)) = Returned 1) \<and>
   ((\<forall>l\<in>set (butlast (drop 2 m)). l \<noteq> [] \<and> last l = newline) \<longrightarrow>
      (body_within_max_length m = Inr (True, HNone)) =
        (\<forall>l\<in>set (butlast (drop 2 m)). length (butlast l) \<le> 71)) \<and>
   (w @ [newline] \<in> set (butlast (drop 2 m)) \<and> length w = 72 \<longrightarrow>
      (\<exists>k. body_within_max_length m = Inr (False, HInt k)))"
proof (intro conjI impI)
  show "concat (readlines content) = universal_newlines content"
    by (simp add: readlines_def readlines_from_concat)
  show "\<forall>l\<in>set (readlines content). carriage_return \<notin> set l"
    using readlines_cr_free by blast
  show sub: "set (get_commit_message content False) \<subseteq> set (readlines content)"
    by (auto simp: get_commit_message_def)
  show "\<forall>l\<in>set (get_commit_message content False).
      l \<noteq> [] \<and> (last l = newline \<or> l = last (readlines content))"
    using sub readlines_from_lines [of "[]" "universal_newlines content"]
    unfolding readlines_def by blast
  show "title_within_max_length ((v @ [newline]) # rest) =
     (if length v \<le> 49 then Inr (True, HNone) else Inr (False, HInt 50))"
    by (simp add: title_within_max_length_def py_index_first)
next
  assume "carriage_return \<notin> set content"
  then show "concat (readlines content) = content"
    by (simp add: readlines_def readlines_from_concat universal_newlines_no_cr)
next
  assume e: "content = [] \<or> last content = newline \<or> last content = carriage_return"
  have "[] @ universal_newlines content = [] \<or>
      last ([] @ universal_newlines content) = newline"
  proof (cases "content = []")
    case True
    then show ?thesis by simp
  next
    case False
    then show ?thesis
      using e universal_newlines_last [of content] by simp
  qed
  then have "\<forall>l\<in>set (readlines content). l \<noteq> [] \<and> last l = newline"
    unfolding readlines_def by (rule readlines_from_ends)
  then show "\<forall>l\<in>set (get_commit_message content False). l \<noteq> [] \<and> last l = newline"
    by (simp add: get_commit_message_def)
next
  assume a: "3 \<le> length rest \<and> length v = 50"
  then have "lint_rules ((v @ [newline]) # rest) =
        ([Call HasTitleAndBody (Inr (True, HNone)),
          Print [Msg OK ''Commit Message has a title and body.''],
          Call TitleWithinMaxLength (Inr (False, HInt 50)),
          Print [Msg ERROR ''Title is too long:'', MsgHint INFO ''Max Length: '' (HInt 50)]],
         Returned 1)"
    by (intro long_title_run) simp_all
  then show "calls (fst (lint_rules ((v @ [newline]) # rest))) =
        [(HasTitleAndBody, Inr (True, HNone)), (TitleWithinMaxLength, Inr (False, HInt 50))]"
    and "snd (lint_rules ((v @ [newline]) # rest)) = Returned 1"
    by simp_all
next
  assume nl: "\<forall>l\<in>set (butlast (drop 2 m)). l \<noteq> [] \<and> last l = newline"
  have "\<And>l. l \<noteq> [] \<Longrightarrow> (length l \<le> 72) = (length (butlast l) \<le> 71)"
    by (case_tac l) auto
  with nl have "(\<forall>l\<in>set (butlast (drop 2 m)). length l \<le> 72) =
      (\<forall>l\<in>set (butlast (drop 2 m)). length (butlast l) \<le> 71)"
    by blast
  then show "(body_within_max_length m = Inr (True, HNone)) =
        (\<forall>l\<in>set (butlast (drop 2 m)). length (butlast l) \<le> 71)"
    by (simp add: rule5_returns body_lines_eq)
next
  assume "w @ [newline] \<in> set (butlast (drop 2 m)) \<and> length w = 72"
  then have "\<not> (\<forall>l\<in>set (butlast (drop 2 m)). length l \<le> 72)"
    by force
  then show "\<exists>k. body_within_max_length m = Inr (False, HInt k)"
    by (simp add: rule5_returns body_lines_eq)
qed

text \<open>
  The file of the witness has CR LF line ends and ends with a lone CR: the lines read
  end with a line feed and hold no CR.
\<close>

theorem newline_is_counted_witness:
  "get_commit_message
     (''docs: x'' @ [carriage_return, newline] @ ''# a comment'' @ [carriage_return, newline] @
      [carriage_return, newline] @ ''body\<newline>'' @ [carriage_return]) False =
     [''docs: x\<newline>'', ''\<newline>'', ''body\<newline>'', ''\<newline>''] \<and>
   list_all (\<lambda>l. l \<noteq> [] \<and> last l = newline)
     (get_commit_message
       (''docs: x'' @ [carriage_return, newline] @ ''# a comment'' @ [carriage_return, newline] @
      [carriage_return, newline] @ ''body\<newline>'' @ [carriage_return]) False) \<and>
   calls (fst (lint_rules
     [''feat: add a parser for the configuration file form\<newline>'', ''\<newline>'', ''body\<newline>'', ''\<newline>''])) =
     [(HasTitleAndBody, Inr (True, HNone)), (TitleWithinMaxLength, Inr (False, HInt 50))] \<and>
   snd (lint_rules
     [''feat: add a parser for the configuration file form\<newline>'', ''\<newline>'', ''body\<newline>'', ''\<newline>'']) = Returned 1 \<and>
   (\<exists>k. body_within_max_length
     [''docs: describe the format\<newline>'', ''\<newline>'',
      ''this line of the body holds exactly seventy-two visible characters, not \<newline>'',
      ''\<newline>''] = Inr (False, HInt k))"
proof -
  define F where "F = ''docs: x'' @ [carriage_return, newline] @ ''# a comment'' @ [carriage_return, newline] @
      [carriage_return, newline] @ ''body\<newline>'' @ [carriage_return]"
  have g: "get_commit_message F False = [''docs: x\<newline>'', ''\<newline>'', ''body\<newline>'', ''\<newline>'']"
    unfolding F_def by code_simp
  have nl: "F = [] \<or> last F = newline \<or> last F = carriage_return"
    unfolding F_def by code_simp
  have v: "''feat: add a parser for the configuration file form'' @ [newline] =
      ''feat: add a parser for the configuration file form\<newline>''"
    by (simp add: newline_def)
  have r: "3 \<le> length [''\<newline>'', ''body\<newline>'', ''\<newline>''] \<and>
      length ''feat: add a parser for the configuration file form'' = 50"
    by simp
  have w: "''this line of the body holds exactly seventy-two visible characters, not '' @ [newline]
      \<in> set (butlast (drop 2 [''docs: describe the format\<newline>'', ''\<newline>'',
      ''this line of the body holds exactly seventy-two visible characters, not \<newline>'',
      ''\<newline>''])) \<and>
      length ''this line of the body holds exactly seventy-two visible characters, not '' = 72"
    by (simp add: newline_def)
  note N = newline_is_counted [of F
      "''feat: add a parser for the configuration file form''"
      "[''\<newline>'', ''body\<newline>'', ''\<newline>'']"
      "[''docs: describe the format\<newline>'', ''\<newline>'',
      ''this line of the body holds exactly seventy-two visible characters, not \<newline>'',
      ''\<newline>'']"
      "''this line of the body holds exactly seventy-two visible characters, not ''"]
  have "\<forall>l\<in>set (get_commit_message F False). l \<noteq> [] \<and> last l = newline"
    using N nl by blast
  then have "list_all (\<lambda>l. l \<noteq> [] \<and> last l = newline) (get_commit_message F False)"
    by (simp only: list_all_iff)
  moreover have "calls (fst (lint_rules
      ((''feat: add a parser for the configuration file form'' @ [newline]) #
        [''\<newline>'', ''body\<newline>'', ''\<newline>'']))) =
     [(HasTitleAndBody, Inr (True, HNone)), (TitleWithinMaxLength, Inr (False, HInt 50))] \<and>
   snd (lint_rules
      ((''feat: add a parser for the configuration file form'' @ [newline]) #
        [''\<newline>'', ''body\<newline>'', ''\<newline>''])) = Returned 1"
    using N r by blast
  moreover have "\<exists>k. body_within_max_length
      [''docs: describe the format\<newline>'', ''\<newline>'',
      ''this line of the body holds exactly seventy-two visible characters, not \<newline>'',
      ''\<newline>''] = Inr (False, HInt k)"
    using N w by blast
  ultimately show ?thesis
    using g v unfolding F_def by simp
qed

end
